theory Spec2Isabelle
  imports Complex_Main "HOL-Library.Log_Nat"
begin

section \<open>Python values\<close>

text \<open>
  A Python \<open>str\<close> is a sequence of Unicode code points; it is modelled as a list of
  natural numbers, so that \<open>len\<close> counts code points and \<open>strip\<close> sees every
  whitespace character Python knows. \<open>u\<close> turns an ASCII literal into such a string.
\<close>

type_synonym pystr = "nat list"

definition u :: "string \<Rightarrow> pystr" where
  "u s = map of_char s"

text \<open>
  The values that \<open>json.loads\<close>, \<open>ast.literal_eval\<close> and \<open>response.json()\<close>
  can hand to the program. A \<open>dict\<close> is an association list in insertion order.
\<close>

datatype pyval =
    PNone
  | PBool bool
  | PInt int
  | PFloat rat
  | PStr pystr
  | PBytes "nat list"
  | PList "pyval list"
  | PTuple "pyval list"
  | PSet "pyval list"
  | PDict "(pyval \<times> pyval) list"

datatype pyexn =
    JSONDecodeError
  | ValueError
  | SyntaxError
  | TypeError
  | AttributeError
  | IndexError
  | KeyError
  | NameError
  | ZeroDivisionError
  | RecursionError
  | MemoryError
  | OSError
  | RequestException
  | ApiError pystr nat pystr

text \<open>\<open>str.isspace\<close> of CPython, character by character.\<close>

definition py_isspace :: "nat \<Rightarrow> bool" where
  "py_isspace c \<longleftrightarrow>
     (9 \<le> c \<and> c \<le> 13) \<or> (28 \<le> c \<and> c \<le> 32) \<or> c = 133 \<or> c = 160 \<or> c = 5760 \<or>
     (8192 \<le> c \<and> c \<le> 8202) \<or> c = 8232 \<or> c = 8233 \<or> c = 8239 \<or> c = 8287 \<or> c = 12288"

definition lstrip :: "pystr \<Rightarrow> pystr" where
  "lstrip s = dropWhile py_isspace s"

definition rstrip :: "pystr \<Rightarrow> pystr" where
  "rstrip s = rev (dropWhile py_isspace (rev s))"

definition strip :: "pystr \<Rightarrow> pystr" where
  "strip s = rstrip (lstrip s)"

definition startswith :: "pystr \<Rightarrow> pystr \<Rightarrow> bool" where
  "startswith s p \<longleftrightarrow> take (length p) s = p"

definition endswith :: "pystr \<Rightarrow> pystr \<Rightarrow> bool" where
  "endswith s p \<longleftrightarrow> length p \<le> length s \<and> drop (length s - length p) s = p"

text \<open>\<open>d.get(key, default)\<close>: only a \<open>dict\<close> has the method.\<close>

definition py_get :: "pyval \<Rightarrow> pystr \<Rightarrow> pyval \<Rightarrow> pyexn + pyval" where
  "py_get d k dflt =
     (case d of
        PDict kvs \<Rightarrow> Inr (case map_of kvs (PStr k) of Some v \<Rightarrow> v | None \<Rightarrow> dflt)
      | _ \<Rightarrow> Inl AttributeError)"

text \<open>\<open>x[0]\<close>.\<close>

definition py_index0 :: "pyval \<Rightarrow> pyexn + pyval" where
  "py_index0 x =
     (case x of
        PList xs \<Rightarrow> (case xs of [] \<Rightarrow> Inl IndexError | y # _ \<Rightarrow> Inr y)
      | PTuple xs \<Rightarrow> (case xs of [] \<Rightarrow> Inl IndexError | y # _ \<Rightarrow> Inr y)
      | PStr s \<Rightarrow> (case s of [] \<Rightarrow> Inl IndexError | c # _ \<Rightarrow> Inr (PStr [c]))
      | PBytes s \<Rightarrow> (case s of [] \<Rightarrow> Inl IndexError | c # _ \<Rightarrow> Inr (PInt (int c)))
      | PDict kvs \<Rightarrow> (case map_of kvs (PInt 0) of Some v \<Rightarrow> Inr v | None \<Rightarrow> Inl KeyError)
      | _ \<Rightarrow> Inl TypeError)"

text \<open>\<open>x["key"]\<close> with a string key.\<close>

definition py_item :: "pyval \<Rightarrow> pystr \<Rightarrow> pyexn + pyval" where
  "py_item x k =
     (case x of
        PDict kvs \<Rightarrow> (case map_of kvs (PStr k) of Some v \<Rightarrow> Inr v | None \<Rightarrow> Inl KeyError)
      | _ \<Rightarrow> Inl TypeError)"

text \<open>\<open>x.strip()\<close>: the program only ever expects a \<open>str\<close> here.\<close>

definition py_strip :: "pyval \<Rightarrow> pyexn + pystr" where
  "py_strip x = (case x of PStr s \<Rightarrow> Inr (strip s) | _ \<Rightarrow> Inl AttributeError)"

section \<open>Python floats\<close>

text \<open>
  A Python \<open>float\<close> is an IEEE 754 binary64 number. Its value is kept as a rational, and
  every arithmetic operation rounds the exact result to the nearest number with a 53-bit
  significand, ties to even (\<open>fl\<close>). The exponent is not bounded: overflow to infinity and
  gradual underflow are outside the model, and so far outside the range of durations, byte
  counts, latencies and prices.
\<close>

definition pow2 :: "int \<Rightarrow> rat" where
  "pow2 k = (if 0 \<le> k then 2 ^ nat k else 1 / 2 ^ nat (- k))"

definition round_half_even :: "rat \<Rightarrow> int" where
  "round_half_even m =
     (let f = \<lfloor>m\<rfloor>; r = m - of_int f
      in if r < 1 / 2 then f else if 1 / 2 < r then f + 1 else if even f then f else f + 1)"

definition fl_pos :: "rat \<Rightarrow> rat" where
  "fl_pos x =
     (let (p, q) = quotient_of x;
          d = bitlen p - bitlen q;
          e = (if pow2 d \<le> x then d else d - 1);
          n = round_half_even (x * pow2 (52 - e))
      in of_int n * pow2 (e - 52))"

definition fl :: "rat \<Rightarrow> rat" where
  "fl x = (if x = 0 then 0 else if x < 0 then - fl_pos (- x) else fl_pos x)"

definition fadd :: "rat \<Rightarrow> rat \<Rightarrow> rat" where
  "fadd a b = fl (a + b)"

definition fmul :: "rat \<Rightarrow> rat \<Rightarrow> rat" where
  "fmul a b = fl (a * b)"

text \<open>True division; every divisor in the modelled code is a non-zero constant.\<close>

definition fdiv :: "rat \<Rightarrow> rat \<Rightarrow> rat" where
  "fdiv a b = fl (a / b)"

section \<open>audioEval.py\<close>

subsection \<open>Pricing constants\<close>

definition SARVAM_PRICING_get :: "pystr \<Rightarrow> rat \<Rightarrow> rat" where
  "SARVAM_PRICING_get model dflt =
     (if model = u ''saarika:v2.5'' then fl (75 / 100000) else dflt)"

definition GEMINI_input_text :: rat where
  "GEMINI_input_text = fdiv (fl (3 / 10)) 1000000"

definition GEMINI_input_audio :: rat where
  "GEMINI_input_audio = fdiv 1 1000000"

definition GEMINI_output_text :: rat where
  "GEMINI_output_text = fdiv (5 / 2) 1000000"

subsection \<open>What the outside world answers for one audio file\<close>

record http_response =
  status_code :: nat
  json_body :: "pyexn + pyval"
  text_body :: pystr

text \<open>\<open>response.ok\<close> of the requests library: no 4xx or 5xx status.\<close>

definition ok :: "http_response \<Rightarrow> bool" where
  "ok r \<longleftrightarrow> \<not> (400 \<le> status_code r \<and> status_code r < 600)"

text \<open>
  One record per input file: its relative name, whether pydub decodes it (and to how many
  milliseconds), what \<open>os.path.getsize\<close> answers, and the outcome of each HTTP exchange.
  An exchange either raises (\<open>Inl\<close>: the file cannot be opened, the connection fails) or
  yields a response together with the measured \<open>end_time - start_time\<close>. The Gemini
  transcription request is indexed by the attempt number.
\<close>

record audio_file =
  filename :: pystr
  decode_ms :: "pyexn + nat"
  getsize :: "pyexn + nat"
  sarvam_post :: "pyexn + http_response \<times> rat"
  translate_post :: "pystr \<Rightarrow> pyexn + http_response \<times> rat"
  gemini_read :: "pyexn option"
  gemini_post :: "nat \<Rightarrow> pyexn + http_response \<times> rat"

subsection \<open>get_audio_duration, estimate_tokens\<close>

definition size_estimate :: "audio_file \<Rightarrow> rat" where
  "size_estimate f =
     (case getsize f of
        Inr file_size \<Rightarrow> max 1 (fmul (fdiv (of_nat file_size) (1024 * 1024)) 60)
      | Inl _ \<Rightarrow> 1)"

definition get_audio_duration :: "bool \<Rightarrow> audio_file \<Rightarrow> rat" where
  "get_audio_duration PYDUB_AVAILABLE f =
     (if \<not> PYDUB_AVAILABLE then size_estimate f
      else case decode_ms f of
             Inr len_audio \<Rightarrow> fdiv (fl (of_nat len_audio)) 1000
           | Inl _ \<Rightarrow> size_estimate f)"

definition estimate_tokens :: "pystr \<Rightarrow> rat" where
  "estimate_tokens text = (if text \<noteq> [] then fdiv (of_nat (length text)) 4 else 0)"

subsection \<open>Sequencing calls that may raise\<close>

definition then_do :: "'e + 'a \<Rightarrow> ('a \<Rightarrow> 'e + 'b) \<Rightarrow> 'e + 'b" where
  "then_do r k = (case r of Inl e \<Rightarrow> Inl e | Inr x \<Rightarrow> k x)"

text \<open>
  \<open>str(value)\<close>, as an f-string applies it: a \<open>str\<close> is kept as it is, anything else is
  printed by the interpreter (\<open>py_repr\<close>, a parameter).
\<close>

definition py_str :: "(pyval \<Rightarrow> pystr) \<Rightarrow> pyval \<Rightarrow> pystr" where
  "py_str py_repr v = (case v of PStr s \<Rightarrow> s | _ \<Rightarrow> py_repr v)"

subsection \<open>speech_to_text_sarvam\<close>

definition speech_to_text_sarvam ::
  "bool \<Rightarrow> audio_file \<Rightarrow> pyexn + pyval \<times> pyval \<times> rat \<times> rat" where
  "speech_to_text_sarvam PYDUB_AVAILABLE f =
     then_do (sarvam_post f) (\<lambda>(response, latency).
       if status_code response \<noteq> 200
       then Inl (ApiError (u ''Sarvam API Error'') (status_code response) (text_body response))
       else
         then_do (json_body response) (\<lambda>result.
         then_do (py_get result (u ''transcript'') (PStr (u ''No transcript available''))) (\<lambda>transcript.
         then_do (py_get result (u ''language_code'') (PStr (u ''Unknown''))) (\<lambda>detected_lang.
           let audio_duration = get_audio_duration PYDUB_AVAILABLE f;
               cost = fmul audio_duration (SARVAM_PRICING_get (u ''saarika:v2.5'') (fl (2 / 100000)))
           in Inr (transcript, detected_lang, latency, cost)))))"

subsection \<open>translate_with_gemini\<close>

definition translate_prompt :: "(pyval \<Rightarrow> pystr) \<Rightarrow> pyval \<Rightarrow> pyval \<Rightarrow> pystr" where
  "translate_prompt py_repr text source_lang =
     u ''Translate the following text from '' @ py_str py_repr source_lang @
     u '' to English. Provide only the translation without any additional commentary:'' @
     [10, 10] @ py_str py_repr text"

text \<open>
  \<open>result.get("candidates", [{}])[0].get("content", {}).get("parts", [{}])[0].get("text", "").strip()\<close>
\<close>

definition translation_of :: "pyval \<Rightarrow> pyexn + pystr" where
  "translation_of result =
     then_do (py_get result (u ''candidates'') (PList [PDict []])) (\<lambda>candidates.
     then_do (py_index0 candidates) (\<lambda>candidate.
     then_do (py_get candidate (u ''content'') (PDict [])) (\<lambda>content.
     then_do (py_get content (u ''parts'') (PList [PDict []])) (\<lambda>parts.
     then_do (py_index0 parts) (\<lambda>part.
     then_do (py_get part (u ''text'') (PStr [])) py_strip)))))"

definition translation_cost_of :: "pystr \<Rightarrow> pystr \<Rightarrow> rat" where
  "translation_cost_of prompt translation =
     (let input_tokens = estimate_tokens prompt;
          output_tokens = estimate_tokens translation
      in fadd (fmul input_tokens GEMINI_input_text) (fmul output_tokens GEMINI_output_text))"

text \<open>The translation is \<open>None\<close> when the response is not \<open>ok\<close>.\<close>

definition translate_with_gemini ::
  "(pyval \<Rightarrow> pystr) \<Rightarrow> audio_file \<Rightarrow> pyval \<Rightarrow> pyval \<Rightarrow> pyexn + pystr option \<times> rat \<times> rat" where
  "translate_with_gemini py_repr f text source_lang =
     (let prompt = translate_prompt py_repr text source_lang
      in then_do (translate_post f prompt) (\<lambda>(response, latency).
           if ok response
           then then_do (json_body response) (\<lambda>result.
                then_do (translation_of result) (\<lambda>translation.
                  Inr (Some translation, latency, translation_cost_of prompt translation)))
           else Inr (None, latency, 0)))"

subsection \<open>speech_to_text_gemini\<close>

definition gemini_prompt :: pystr where
  "gemini_prompt =
     u ''Please transcribe and translate the following audio into English. '' @
     u ''Return only the final English transcription, without any commentary or extra text.''"

text \<open>
  The retry loop \<open>for attempt in range(retries + 1)\<close>. A 429 answer is retried while
  \<open>attempt < retries\<close> (the sleep has no effect on the result); the loop leaves with the
  response and the time of the successful request. A loop that ran out without \<open>break\<close>
  would leave \<open>response\<close> unbound.
\<close>

fun gemini_loop ::
  "(nat \<Rightarrow> pyexn + http_response \<times> rat) \<Rightarrow> nat \<Rightarrow> nat list \<Rightarrow> pyexn + http_response \<times> rat" where
  "gemini_loop post retries [] = Inl NameError"
| "gemini_loop post retries (attempt # rest) =
     then_do (post attempt) (\<lambda>(response, elapsed).
       if status_code response = 429
       then (if attempt < retries then gemini_loop post retries rest
             else Inl (ApiError (u ''Gemini API quota exceeded after retries.'') 429 []))
       else if \<not> ok response
       then Inl (ApiError (u ''Gemini API Error'') (status_code response) (text_body response))
       else Inr (response, elapsed))"

text \<open>
  \<open>result["candidates"][0]["content"]["parts"][0]["text"].strip()\<close>, with
  \<open>KeyError\<close> and \<open>IndexError\<close> caught.
\<close>

definition english_transcript_of :: "pyval \<Rightarrow> pyexn + pystr" where
  "english_transcript_of result =
     (case then_do (py_item result (u ''candidates'')) (\<lambda>candidates.
           then_do (py_index0 candidates) (\<lambda>candidate.
           then_do (py_item candidate (u ''content'')) (\<lambda>content.
           then_do (py_item content (u ''parts'')) (\<lambda>parts.
           then_do (py_index0 parts) (\<lambda>part.
           then_do (py_item part (u ''text'')) py_strip))))) of
        Inr s \<Rightarrow> Inr s
      | Inl KeyError \<Rightarrow> Inr (u ''ERROR: Could not parse Gemini response'')
      | Inl IndexError \<Rightarrow> Inr (u ''ERROR: Could not parse Gemini response'')
      | Inl e \<Rightarrow> Inl e)"

definition gemini_cost_of :: "rat \<Rightarrow> pystr \<Rightarrow> rat" where
  "gemini_cost_of audio_duration english_transcript =
     (let input_audio_tokens = fmul audio_duration 50;
          input_text_tokens = estimate_tokens gemini_prompt;
          output_tokens = estimate_tokens english_transcript
      in fadd (fadd (fmul input_text_tokens GEMINI_input_text)
                    (fmul input_audio_tokens GEMINI_input_audio))
              (fmul output_tokens GEMINI_output_text))"

definition speech_to_text_gemini ::
  "bool \<Rightarrow> audio_file \<Rightarrow> nat \<Rightarrow> pyexn + pystr \<times> rat \<times> rat" where
  "speech_to_text_gemini PYDUB_AVAILABLE f retries =
     (case gemini_read f of
        Some e \<Rightarrow> Inl e
      | None \<Rightarrow>
          then_do (gemini_loop (gemini_post f) retries [0 ..< retries + 1]) (\<lambda>(response, total_api_time).
          then_do (json_body response) (\<lambda>result.
          then_do (english_transcript_of result) (\<lambda>english_transcript.
            let audio_duration = get_audio_duration PYDUB_AVAILABLE f;
                cost = gemini_cost_of audio_duration english_transcript
            in Inr (english_transcript, total_api_time, cost)))))"

subsection \<open>process_all_audio_files\<close>

text \<open>
  A cell of the report. The numeric cells keep the number and the format it is printed in:
  \<open>Seconds1 d\<close> is \<open>f"{d:.1f}s"\<close>, \<open>Seconds2 t\<close> is \<open>f"{t:.2f}s"\<close>, \<open>Dollars6 c\<close> is
  \<open>f"${c:.6f}"\<close>, and \<open>ErrorMsg e\<close> is \<open>f"ERROR: {e}"\<close>.
\<close>

datatype cell =
    Text pystr
  | Value pyval
  | Seconds1 rat
  | Seconds2 rat
  | Dollars6 rat
  | ErrorMsg pyexn

record totals =
  total_sarvam_cost :: rat
  total_gemini_cost :: rat
  total_translation_cost :: rat
  total_sarvam_time :: rat
  total_gemini_time :: rat
  total_translation_time :: rat

definition zero_totals :: totals where
  "zero_totals =
     \<lparr>total_sarvam_cost = 0, total_gemini_cost = 0, total_translation_cost = 0,
      total_sarvam_time = 0, total_gemini_time = 0, total_translation_time = 0\<rparr>"

definition error_row :: "audio_file \<Rightarrow> pyexn \<Rightarrow> cell list" where
  "error_row f e =
     [Text (filename f), Text (u ''N/A''), ErrorMsg e, Text (u ''N/A''), Text (u ''N/A''),
      Text (u ''N/A''), ErrorMsg e, Text (u ''N/A''), Text (u ''N/A'')]"

definition needs_translation :: "pyval \<Rightarrow> bool" where
  "needs_translation sarvam_lang \<longleftrightarrow> sarvam_lang \<notin> set [PStr (u ''en-IN''), PStr (u ''en'')]"

text \<open>
  The translation step of the loop body, after the Sarvam totals were updated: the totals
  after it, the text kept as \<open>sarvam_resp\<close>, and the latency and cost of the translation.
  \<open>if sarvam_translation\<close> holds for a non-empty string only.
\<close>

definition translation_step ::
  "(pyval \<Rightarrow> pystr) \<Rightarrow> audio_file \<Rightarrow> totals \<Rightarrow> pyval \<Rightarrow> pyval \<Rightarrow>
     pyexn + totals \<times> pyval \<times> rat \<times> rat" where
  "translation_step py_repr f t sarvam_transcript sarvam_lang =
     (if needs_translation sarvam_lang
      then then_do (translate_with_gemini py_repr f sarvam_transcript sarvam_lang)
        (\<lambda>(sarvam_translation, translation_latency, translation_cost).
           let t' = t\<lparr>total_translation_time := fadd (total_translation_time t) translation_latency,
                      total_translation_cost := fadd (total_translation_cost t) translation_cost\<rparr>;
               sarvam_resp = (case sarvam_translation of
                                Some tr \<Rightarrow> if tr \<noteq> [] then PStr tr else sarvam_transcript
                              | None \<Rightarrow> sarvam_transcript)
           in Inr (t', sarvam_resp, translation_latency, translation_cost))
      else Inr (t, sarvam_transcript, 0, 0))"

text \<open>
  One iteration of the loop over the files: the running totals after it and the row it
  appends. An exception anywhere in the \<open>try\<close> block keeps the totals updated so far and
  appends the error row. \<open>gemini_step\<close> is the rest of the block from the Gemini
  transcription on.
\<close>

definition gemini_step ::
  "bool \<Rightarrow> audio_file \<Rightarrow> totals \<Rightarrow> pyval \<Rightarrow> bool \<Rightarrow> rat \<Rightarrow> rat \<Rightarrow> totals \<times> cell list" where
  "gemini_step PYDUB_AVAILABLE f t sarvam_resp needs sarvam_total_time sarvam_total_cost =
     (case speech_to_text_gemini PYDUB_AVAILABLE f 2 of
        Inl e \<Rightarrow> (t, error_row f e)
      | Inr (gemini_resp, gemini_latency, gemini_cost) \<Rightarrow>
          (let t' = t\<lparr>total_gemini_time := fadd (total_gemini_time t) gemini_latency,
                      total_gemini_cost := fadd (total_gemini_cost t) gemini_cost\<rparr>;
               duration = get_audio_duration PYDUB_AVAILABLE f
           in (t',
               [Text (filename f), Seconds1 duration, Value sarvam_resp,
                Seconds2 sarvam_total_time, Dollars6 sarvam_total_cost,
                Text (if needs then u ''Yes'' else u ''No''),
                Value (PStr gemini_resp), Seconds2 gemini_latency, Dollars6 gemini_cost])))"

definition process_file ::
  "bool \<Rightarrow> (pyval \<Rightarrow> pystr) \<Rightarrow> totals \<Rightarrow> audio_file \<Rightarrow> totals \<times> cell list" where
  "process_file PYDUB_AVAILABLE py_repr t f =
     (case speech_to_text_sarvam PYDUB_AVAILABLE f of
        Inl e \<Rightarrow> (t, error_row f e)
      | Inr (sarvam_transcript, sarvam_lang, sarvam_latency, sarvam_cost) \<Rightarrow>
          (let t1 = t\<lparr>total_sarvam_time := fadd (total_sarvam_time t) sarvam_latency,
                      total_sarvam_cost := fadd (total_sarvam_cost t) sarvam_cost\<rparr>
           in (case translation_step py_repr f t1 sarvam_transcript sarvam_lang of
                 Inl e \<Rightarrow> (t1, error_row f e)
               | Inr (t2, sarvam_resp, translation_latency, translation_cost) \<Rightarrow>
                   (let sarvam_total_cost = fadd sarvam_cost translation_cost;
                        sarvam_total_time = fadd sarvam_latency translation_latency
                    in gemini_step PYDUB_AVAILABLE f t2 sarvam_resp (needs_translation sarvam_lang)
                         sarvam_total_time sarvam_total_cost))))"

fun process_loop ::
  "bool \<Rightarrow> (pyval \<Rightarrow> pystr) \<Rightarrow> totals \<times> cell list list \<Rightarrow> audio_file list \<Rightarrow> totals \<times> cell list list" where
  "process_loop PYDUB_AVAILABLE py_repr (t, results) [] = (t, results)"
| "process_loop PYDUB_AVAILABLE py_repr (t, results) (f # audio_files) =
     (let (t', row) = process_file PYDUB_AVAILABLE py_repr t f
      in process_loop PYDUB_AVAILABLE py_repr (t', results @ [row]) audio_files)"

definition totals_row :: "totals \<Rightarrow> cell list" where
  "totals_row t =
     (let total_combined_sarvam_cost = fadd (total_sarvam_cost t) (total_translation_cost t);
          total_combined_sarvam_time = fadd (total_sarvam_time t) (total_translation_time t)
      in [Text (u ''TOTALS''), Text [], Text [], Seconds2 total_combined_sarvam_time,
          Dollars6 total_combined_sarvam_cost, Text [], Text [],
          Seconds2 (total_gemini_time t), Dollars6 (total_gemini_cost t)])"

text \<open>
  The rows written below the header of the CSV file, and how the call ends: the summary
  printed after the file is written divides by \<open>len(results) - 1\<close>.
\<close>

definition process_all_audio_files ::
  "bool \<Rightarrow> (pyval \<Rightarrow> pystr) \<Rightarrow> audio_file list \<Rightarrow> cell list list \<times> (pyexn + unit)" where
  "process_all_audio_files PYDUB_AVAILABLE py_repr audio_files =
     (let (t, results) = process_loop PYDUB_AVAILABLE py_repr (zero_totals, []) audio_files;
          results' = results @ [totals_row t]
      in (results', if length results' - 1 = 0 then Inl ZeroDivisionError else Inr ()))"

section \<open>modifiedHierarcy.py: parse_meta_tags_json\<close>

text \<open>
  The parser calls into the Python library: \<open>json.loads\<close>, \<open>ast.literal_eval\<close>,
  \<open>json.dumps(value, ensure_ascii=False)\<close> and the printing of scalars. These are not
  code of the program; they are parameters, and what is proved about the parser holds
  whatever they answer.
\<close>

record pylib =
  json_loads :: "pystr \<Rightarrow> pyexn + pyval"
  literal_eval :: "pystr \<Rightarrow> pyexn + pyval"
  json_dumps :: "pyval \<Rightarrow> pyexn + pystr"
  py_repr :: "pyval \<Rightarrow> pystr"

type_synonym pydict = "(pyval \<times> pyval) list"

definition required_fields :: "pystr list" where
  "required_fields =
     [u ''character_primary'', u ''character_secondary'', u ''setting_primary'',
      u ''setting_secondary'', u ''theme_primary'', u ''theme_secondary'',
      u ''events_primary'', u ''events_secondary'', u ''emotions_primary'',
      u ''emotions_secondary'', u ''keywords'']"

text \<open>The cleaning of the input: trim, drop a leading and a trailing fence, trim.\<close>

definition clean_json_str :: "pystr \<Rightarrow> pystr" where
  \<open>clean_json_str json_str =
     (let s1 = strip json_str;
          s2 = (if startswith s1 (u ''```json'') then drop 7 s1 else s1);
          s3 = (if endswith s2 (u ''```'') then take (length s2 - 3) s2 else s2)
      in strip s3)\<close>

text \<open>
  \<open>json.loads\<close> first; \<open>ast.literal_eval\<close> only after a \<open>JSONDecodeError\<close>. Its
  \<open>ValueError\<close> and \<open>SyntaxError\<close> are logged and raised again, any other exception
  passes through.
\<close>

definition load_meta_dict :: "pylib \<Rightarrow> pystr \<Rightarrow> pyexn + pyval" where
  "load_meta_dict lib json_str =
     (case json_loads lib json_str of
        Inr meta_dict \<Rightarrow> Inr meta_dict
      | Inl JSONDecodeError \<Rightarrow> literal_eval lib json_str
      | Inl e \<Rightarrow> Inl e)"

definition stringify_value :: "pylib \<Rightarrow> pyval \<Rightarrow> pyexn + pystr" where
  "stringify_value lib v =
     (case v of
        PList _ \<Rightarrow> json_dumps lib v
      | PDict _ \<Rightarrow> json_dumps lib v
      | _ \<Rightarrow> Inr (py_str (py_repr lib) v))"

text \<open>
  \<open>for key, value in meta_dict.items(): meta_dict[key] = stringify_value(value)\<close>:
  every value is replaced in place, the keys and their order stay; the first value that
  cannot be serialised raises.
\<close>

fun stringify_items :: "pylib \<Rightarrow> pydict \<Rightarrow> pyexn + pydict" where
  "stringify_items lib [] = Inr []"
| "stringify_items lib ((key, v) # items) =
     then_do (stringify_value lib v) (\<lambda>s.
     then_do (stringify_items lib items) (\<lambda>items'.
       Inr ((key, PStr s) # items')))"

text \<open>\<open>if field not in meta_dict: meta_dict[field] = "Not specified"\<close>\<close>

definition ensure_field :: "pydict \<Rightarrow> pystr \<Rightarrow> pydict" where
  "ensure_field meta_dict field =
     (if PStr field \<notin> set (map fst meta_dict)
      then meta_dict @ [(PStr field, PStr (u ''Not specified''))]
      else meta_dict)"

text \<open>The body of the \<open>try\<close> block; \<open>.items()\<close> exists on a \<open>dict\<close> only.\<close>

definition parse_try :: "pylib \<Rightarrow> pystr \<Rightarrow> pyexn + pydict" where
  "parse_try lib json_str =
     then_do (load_meta_dict lib (clean_json_str json_str)) (\<lambda>meta_dict.
       case meta_dict of
         PDict items \<Rightarrow>
           then_do (stringify_items lib items) (\<lambda>items'.
             Inr (foldl ensure_field items' required_fields))
       | _ \<Rightarrow> Inl AttributeError)"

definition error_record :: pydict where
  "error_record = map (\<lambda>field. (PStr field, PStr (u ''Error parsing''))) required_fields"

definition parse_meta_tags_json :: "pylib \<Rightarrow> pystr \<Rightarrow> pydict" where
  "parse_meta_tags_json lib json_str =
     (case parse_try lib json_str of
        Inr meta_dict \<Rightarrow> meta_dict
      | Inl e \<Rightarrow> error_record)"

text \<open>Two Python dicts are equal when they map the same keys to the same values.\<close>

definition dict_eq :: "pydict \<Rightarrow> pydict \<Rightarrow> bool" where
  "dict_eq d1 d2 \<longleftrightarrow> map_of d1 = map_of d2"

definition keys :: "pydict \<Rightarrow> pyval set" where
  "keys d = set (map fst d)"

text \<open>A value of a returned record is a \<open>str\<close>.\<close>

definition is_str :: "pyval \<Rightarrow> bool" where
  "is_str v = (case v of PStr s \<Rightarrow> True | _ \<Rightarrow> False)"

text \<open>\<open>isinstance(value, (list, dict))\<close>\<close>

definition is_list_or_dict :: "pyval \<Rightarrow> bool" where
  "is_list_or_dict v = (case v of PList xs \<Rightarrow> True | PDict kvs \<Rightarrow> True | _ \<Rightarrow> False)"

text \<open>The input with a fence around it.\<close>

definition fenced :: "pystr \<Rightarrow> pystr" where
  \<open>fenced s = u ''```json'' @ [10] @ s @ [10] @ u ''```''\<close>

section \<open>JSON text of a dict of strings\<close>

text \<open>
  How CPython's \<open>json\<close> module writes and reads a dict whose keys and values are all
  strings; this is the part of the library that decides what a record looks like after it
  has been written as JSON and read again. The writer is the encoder with
  \<open>ensure_ascii=False\<close> and the default separators. A character is escaped when it is a
  quote, a backslash or a control character, and written as it is otherwise.
\<close>

definition hexdigit :: "nat \<Rightarrow> nat" where
  "hexdigit n = (if n < 10 then 48 + n else 87 + n)"

definition escape_char :: "nat \<Rightarrow> pystr" where
  "escape_char c =
     (if c = 34 then [92, 34]
      else if c = 92 then [92, 92]
      else if c = 10 then [92, 110]
      else if c = 13 then [92, 114]
      else if c = 9 then [92, 116]
      else if c = 12 then [92, 102]
      else if c = 8 then [92, 98]
      else if c < 32 then [92, 117, 48, 48, hexdigit (c div 16), hexdigit (c mod 16)]
      else [c])"

definition encode_basestring :: "pystr \<Rightarrow> pystr" where
  "encode_basestring s = [34] @ concat (map escape_char s) @ [34]"

definition write_item :: "pystr \<times> pystr \<Rightarrow> pystr" where
  "write_item kv = encode_basestring (fst kv) @ [58, 32] @ encode_basestring (snd kv)"

fun write_items :: "(pystr \<times> pystr) list \<Rightarrow> pystr" where
  "write_items [] = []"
| "write_items [kv] = write_item kv"
| "write_items (kv # rest) = write_item kv @ [44, 32] @ write_items rest"

definition write_object :: "(pystr \<times> pystr) list \<Rightarrow> pystr" where
  "write_object d = (if d = [] then [123, 125] else [123] @ write_items d @ [125])"

text \<open>
  The reader is the C scanner of the decoder in strict mode. \<open>scanstring\<close> starts after
  an opening quote and returns the decoded string and the text after the closing quote:
  a control character or an unknown escape is an error, \<open>\uXXXX\<close> takes four
  hexadecimal digits and needs one more character after them, and a high surrogate followed
  by an escaped low surrogate becomes one code point.
\<close>

definition hexval :: "nat \<Rightarrow> nat option" where
  "hexval c =
     (if 48 \<le> c \<and> c \<le> 57 then Some (c - 48)
      else if 97 \<le> c \<and> c \<le> 102 then Some (c - 87)
      else if 65 \<le> c \<and> c \<le> 70 then Some (c - 55)
      else None)"

fun hex4 :: "nat list \<Rightarrow> nat option" where
  "hex4 [a, b, c, d] =
     (case (hexval a, hexval b, hexval c, hexval d) of
        (Some x, Some y, Some z, Some w) \<Rightarrow> Some (((x * 16 + y) * 16 + z) * 16 + w)
      | _ \<Rightarrow> None)"
| "hex4 _ = None"

definition unescape :: "nat \<Rightarrow> nat option" where
  "unescape e =
     (if e = 34 then Some 34
      else if e = 92 then Some 92
      else if e = 47 then Some 47
      else if e = 98 then Some 8
      else if e = 102 then Some 12
      else if e = 110 then Some 10
      else if e = 114 then Some 13
      else if e = 116 then Some 9
      else None)"

definition is_high_surrogate :: "nat \<Rightarrow> bool" where
  "is_high_surrogate c \<longleftrightarrow> 55296 \<le> c \<and> c \<le> 56319"

definition is_low_surrogate :: "nat \<Rightarrow> bool" where
  "is_low_surrogate c \<longleftrightarrow> 56320 \<le> c \<and> c \<le> 57343"

definition join_surrogates :: "nat \<Rightarrow> nat \<Rightarrow> nat" where
  "join_surrogates hi lo = 65536 + (hi - 55296) * 1024 + (lo - 56320)"

definition decoded :: "nat \<Rightarrow> (pystr \<times> nat list) option \<Rightarrow> (pystr \<times> nat list) option" where
  "decoded c r = (case r of None \<Rightarrow> None | Some (s, rest) \<Rightarrow> Some (c # s, rest))"

fun scanstring :: "nat list \<Rightarrow> (pystr \<times> nat list) option" where
  "scanstring [] = None"
| "scanstring (c # cs) =
     (if c = 34 then Some ([], cs)
      else if c = 92 then
        (case cs of
           [] \<Rightarrow> None
         | e # rest \<Rightarrow>
             if e \<noteq> 117 then
               (case unescape e of None \<Rightarrow> None | Some x \<Rightarrow> decoded x (scanstring rest))
             else if length rest \<le> 4 then None
             else
               (case hex4 (take 4 rest) of
                  None \<Rightarrow> None
                | Some c1 \<Rightarrow>
                    if is_high_surrogate c1 \<and> 6 < length (drop 4 rest) \<and>
                       take 2 (drop 4 rest) = [92, 117]
                    then
                      (case hex4 (take 4 (drop 6 rest)) of
                         None \<Rightarrow> None
                       | Some c2 \<Rightarrow>
                           if is_low_surrogate c2
                           then decoded (join_surrogates c1 c2) (scanstring (drop 10 rest))
                           else decoded c1 (scanstring (drop 4 rest)))
                    else decoded c1 (scanstring (drop 4 rest))))
      else if c \<le> 31 then None
      else decoded c (scanstring cs))"


text \<open>
  Space, tab, line feed and carriage return may stand between the tokens. A key that was
  read before keeps its place and takes the later value (\<open>PyDict_SetItem\<close>).
\<close>

definition json_ws :: "nat \<Rightarrow> bool" where
  "json_ws c \<longleftrightarrow> c = 32 \<or> c = 9 \<or> c = 10 \<or> c = 13"

definition skip_ws :: "nat list \<Rightarrow> nat list" where
  "skip_ws t = dropWhile json_ws t"

fun set_item :: "(pystr \<times> pystr) list \<Rightarrow> pystr \<Rightarrow> pystr \<Rightarrow> (pystr \<times> pystr) list" where
  "set_item [] k v = [(k, v)]"
| "set_item ((k', v') # rest) k v =
     (if k' = k then (k', v) # rest else (k', v') # set_item rest k v)"

text \<open>The scanner consumes at least the closing quote.\<close>

lemma scanstring_shorter: "scanstring cs = Some (s, r) \<Longrightarrow> length r < length cs"
proof (induction "length cs" arbitrary: cs s r rule: less_induct)
  case less
  note IH = less.hyps
  from less.prems obtain c cs' where cs: "cs = c # cs'"
    by (cases cs) auto
  note p = less.prems [unfolded cs]
  show ?case
  proof (cases "c = 34")
    case True
    with p cs show ?thesis by simp
  next
    case n34: False
    show ?thesis
    proof (cases "c = 92")
      case False
      with n34 p obtain s' where sc: "scanstring cs' = Some (s', r)"
        by (auto simp: decoded_def split: if_splits option.splits)
      from IH [OF _ sc] cs show ?thesis by simp
    next
      case True
      with n34 p obtain e rest where cs': "cs' = e # rest"
        by (cases cs') auto
      show ?thesis
      proof (cases "e = 117")
        case False
        with n34 True cs' p obtain s' where sc: "scanstring rest = Some (s', r)"
          by (auto simp: decoded_def split: option.splits)
        from IH [OF _ sc] cs cs' show ?thesis by simp
      next
        case u: True
        with n34 True cs' p have len: "\<not> length rest \<le> 4"
          by (auto split: if_splits)
        with n34 True cs' u p obtain s' where
          "scanstring (drop 4 rest) = Some (s', r) \<or> scanstring (drop 10 rest) = Some (s', r)"
          by (auto simp: decoded_def split: option.splits if_splits)
        then show ?thesis
        proof
          assume sc: "scanstring (drop 4 rest) = Some (s', r)"
          from IH [OF _ sc] cs cs' show ?thesis by (simp; arith)
        next
          assume sc: "scanstring (drop 10 rest) = Some (s', r)"
          from IH [OF _ sc] cs cs' show ?thesis by (simp; arith)
        qed
      qed
    qed
  qed
qed


text \<open>
  The members of an object, from the opening quote of a key: key, colon, a value that is
  a string, then a comma and the next member, or the closing brace. The result is the
  dict and the text after the brace. A value that is not a string is outside this reader.
\<close>

function read_members ::
  "(pystr \<times> pystr) list \<Rightarrow> nat list \<Rightarrow> ((pystr \<times> pystr) list \<times> nat list) option" where
  "read_members acc t =
     (case t of
        [] \<Rightarrow> None
      | q # t1 \<Rightarrow>
          if q \<noteq> 34 then None
          else
            (case scanstring t1 of
               None \<Rightarrow> None
             | Some (key, t2) \<Rightarrow>
                 (case skip_ws t2 of
                    [] \<Rightarrow> None
                  | c # t3 \<Rightarrow>
                      if c \<noteq> 58 then None
                      else
                        (case skip_ws t3 of
                           [] \<Rightarrow> None
                         | q' # t4 \<Rightarrow>
                             if q' \<noteq> 34 then None
                             else
                               (case scanstring t4 of
                                  None \<Rightarrow> None
                                | Some (val, t5) \<Rightarrow>
                                    (case skip_ws t5 of
                                       [] \<Rightarrow> None
                                     | d # t6 \<Rightarrow>
                                         if d = 125 then Some (set_item acc key val, t6)
                                         else if d = 44
                                         then read_members (set_item acc key val) (skip_ws t6)
                                         else None))))))"
  by pat_completeness auto

lemma skip_ws_length: "length (skip_ws t) \<le> length t"
  by (simp add: skip_ws_def length_dropWhile_le)

lemma skip_ws_Cons_length: "skip_ws t = c # t' \<Longrightarrow> length t' < length t"
  using skip_ws_length [of t] by simp

termination read_members
proof (relation "measure (\<lambda>(acc, t). length t)", goal_cases)
  case 1
  show ?case by simp
next
  case (2 acc t q t1 x key t2 c t3 q' t4 y val t5 d t6)
  from 2 have a: "length t2 < length t1"
    by (metis scanstring_shorter)
  from 2 have b: "length t5 < length t4"
    by (metis scanstring_shorter)
  from 2 have "length t3 < length t2" "length t4 < length t3" "length t6 < length t5"
    by (metis skip_ws_Cons_length)+
  with a b skip_ws_length [of t6] 2(1) show ?case by simp
qed

text \<open>
  \<open>json.loads\<close> on a text that is an object of strings: no byte order mark, an object
  between optional whitespace, and nothing after it.
\<close>

definition read_object :: "nat list \<Rightarrow> (pystr \<times> pystr) list option" where
  "read_object t =
     (if t \<noteq> [] \<and> hd t = 65279 then None
      else
        (case skip_ws t of
           [] \<Rightarrow> None
         | b # t1 \<Rightarrow>
             if b \<noteq> 123 then None
             else
               (case skip_ws t1 of
                  [] \<Rightarrow> None
                | c # t2 \<Rightarrow>
                    if c = 125 then (if skip_ws t2 = [] then Some [] else None)
                    else
                      (case read_members [] (c # t2) of
                         None \<Rightarrow> None
                       | Some (d, t3) \<Rightarrow> if skip_ws t3 = [] then Some d else None))))"


declare read_members.simps [simp del]

text \<open>
  Between the reader's pairs of strings and the values of the program: \<open>str_items\<close>
  wraps both components as \<open>str\<close> values, \<open>strs_of\<close> takes them out again.
\<close>

definition str_items :: "(pystr \<times> pystr) list \<Rightarrow> pydict" where
  "str_items d = map (\<lambda>kv. (PStr (fst kv), PStr (snd kv))) d"

definition str_of :: "pyval \<Rightarrow> pystr" where
  "str_of v = (case v of PStr x \<Rightarrow> x | _ \<Rightarrow> [])"

definition strs_of :: "pydict \<Rightarrow> (pystr \<times> pystr) list" where
  "strs_of kvs = map (\<lambda>kv. (str_of (fst kv), str_of (snd kv))) kvs"

section \<open>Sample inputs\<close>

text \<open>
  Concrete answers of the outside world, used to instantiate the theorems below.
  \<open>text_response s\<close> is the body of a Gemini answer with one candidate and one text part.
\<close>

definition http_json :: "nat \<Rightarrow> pyval \<Rightarrow> http_response" where
  "http_json code body = \<lparr>status_code = code, json_body = Inr body, text_body = []\<rparr>"

definition text_response :: "pystr \<Rightarrow> pyval" where
  "text_response s =
     PDict [(PStr (u ''candidates''),
             PList [PDict [(PStr (u ''content''),
                            PDict [(PStr (u ''parts''), PList [PDict [(PStr (u ''text''), PStr s)]])])]])]"

text \<open>
  A two-mebibyte Hindi recording that pydub cannot decode. Its transcript has 283
  characters, which makes the translation prompt 400 characters long; the translation
  that comes back has 80 characters.
\<close>

definition hindi_clip :: audio_file where
  "hindi_clip =
     \<lparr>filename = u ''clips/hindi.wav'',
      decode_ms = Inl OSError,
      getsize = Inr 2097152,
      sarvam_post =
        Inr (http_json 200
               (PDict [(PStr (u ''transcript''), PStr (replicate 283 97)),
                       (PStr (u ''language_code''), PStr (u ''hi-IN''))]),
             3 / 2),
      translate_post = (\<lambda>prompt. Inr (http_json 200 (text_response (replicate 80 98)), 1 / 2)),
      gemini_read = None,
      gemini_post = (\<lambda>attempt. Inr (http_json 200 (text_response (u ''hello'')), 2))\<rparr>"

text \<open>
  The same recording in three other worlds: the translation request cannot reach the
  service; the translation service answers 503; and the Gemini transcription answers 500.
\<close>

definition hindi_clip_offline :: audio_file where
  "hindi_clip_offline = hindi_clip\<lparr>translate_post := (\<lambda>prompt. Inl RequestException)\<rparr>"

definition hindi_clip_unavailable :: audio_file where
  "hindi_clip_unavailable =
     hindi_clip\<lparr>translate_post :=
       (\<lambda>prompt. Inr (\<lparr>status_code = 503, json_body = Inl JSONDecodeError,
                            text_body = u ''unavailable''\<rparr>, 1 / 4))\<rparr>"

definition hindi_clip_gemini_down :: audio_file where
  "hindi_clip_gemini_down =
     hindi_clip\<lparr>gemini_post :=
       (\<lambda>attempt. Inr (\<lparr>status_code = 500, json_body = Inl JSONDecodeError,
                             text_body = u ''internal error''\<rparr>, 1))\<rparr>"

text \<open>The interpreter's printing of non-string values is not needed for these inputs.\<close>

definition no_repr :: "pyval \<Rightarrow> pystr" where
  "no_repr v = []"

subsection \<open>Sample answers of the Python library\<close>

text \<open>
  What CPython's \<open>json\<close> and \<open>ast\<close> modules answer on the texts and values that the
  examples below pass to them. \<open>defaults_json\<close> is how \<open>json.dumps\<close> writes the eleven
  defaulted fields after a first item; \<open>defaults\<close> are those fields as items.
\<close>

definition defaults :: pydict where
  "defaults = map (\<lambda>field. (PStr field, PStr (u ''Not specified''))) required_fields"

definition defaults_json :: pystr where
  \<open>defaults_json =
     u '', "character_primary": "Not specified", "character_secondary": "Not specified"'' @
     u '', "setting_primary": "Not specified", "setting_secondary": "Not specified"'' @
     u '', "theme_primary": "Not specified", "theme_secondary": "Not specified"'' @
     u '', "events_primary": "Not specified", "events_secondary": "Not specified"'' @
     u '', "emotions_primary": "Not specified", "emotions_secondary": "Not specified"'' @
     u '', "keywords": "Not specified"''\<close>

text \<open>An object with one key that is not among the eleven, and its normalised record.\<close>

definition extra_json :: pystr where
  \<open>extra_json = u ''{"extra": "x"}''\<close>

definition extra_record_json :: pystr where
  \<open>extra_record_json = u ''{"extra": "x"'' @ defaults_json @ u ''}''\<close>

text \<open>A Python dict literal with an integer key, and how its record is written as JSON.\<close>

definition int_key_literal :: pystr where
  \<open>int_key_literal = u ''{1: 'a'}''\<close>

definition int_key_record_json :: pystr where
  \<open>int_key_record_json = u ''{"1": "a"'' @ defaults_json @ u ''}''\<close>

text \<open>An object that has eight of the eleven keys.\<close>

definition eight_keys_json :: pystr where
  \<open>eight_keys_json =
     u ''{"character_primary": "Asha", "character_secondary": "dog", '' @
     u ''"setting_primary": "village", "setting_secondary": "river", '' @
     u ''"theme_primary": "friendship", "theme_secondary": "water", '' @
     u ''"events_primary": "flood", "events_secondary": "picnic"}''\<close>

definition eight_keys_items :: pydict where
  "eight_keys_items =
     [(PStr (u ''character_primary''), PStr (u ''Asha'')),
      (PStr (u ''character_secondary''), PStr (u ''dog'')),
      (PStr (u ''setting_primary''), PStr (u ''village'')),
      (PStr (u ''setting_secondary''), PStr (u ''river'')),
      (PStr (u ''theme_primary''), PStr (u ''friendship'')),
      (PStr (u ''theme_secondary''), PStr (u ''water'')),
      (PStr (u ''events_primary''), PStr (u ''flood'')),
      (PStr (u ''events_secondary''), PStr (u ''picnic''))]"

text \<open>An object whose only value is \<open>null\<close>; \<open>str(None)\<close> is \<open>None\<close>.\<close>

definition null_json :: pystr where
  \<open>null_json = u ''{"keywords": null}''\<close>

definition sample_repr :: "pyval \<Rightarrow> pystr" where
  "sample_repr v = (if v = PNone then u ''None'' else [])"

text \<open>
  \<open>json.loads\<close> raises \<open>JSONDecodeError\<close> on every other text the examples use
  (\<open>hello world\<close>, the dict literal, a text that still carries a fence), and
  \<open>ast.literal_eval\<close> raises \<open>SyntaxError\<close> on those it cannot read.
\<close>

definition sample_loads :: "pystr \<Rightarrow> pyexn + pyval" where
  \<open>sample_loads s =
     (if s = u ''{}'' then Inr (PDict [])
      else if s = extra_json then Inr (PDict [(PStr (u ''extra''), PStr (u ''x''))])
      else if s = eight_keys_json then Inr (PDict eight_keys_items)
      else if s = extra_record_json then Inr (PDict ((PStr (u ''extra''), PStr (u ''x'')) # defaults))
      else if s = int_key_record_json then Inr (PDict ((PStr (u ''1''), PStr (u ''a'')) # defaults))
      else if s = null_json then Inr (PDict [(PStr (u ''keywords''), PNone)])
      else Inl JSONDecodeError)\<close>

definition sample_literal_eval :: "pystr \<Rightarrow> pyexn + pyval" where
  "sample_literal_eval s =
     (if s = int_key_literal then Inr (PDict [(PInt 1, PStr (u ''a''))])
      else Inl SyntaxError)"

definition sample_dumps :: "pyval \<Rightarrow> pyexn + pystr" where
  "sample_dumps v =
     (if v = PDict ((PStr (u ''extra''), PStr (u ''x'')) # defaults) then Inr extra_record_json
      else if v = PDict ((PInt 1, PStr (u ''a'')) # defaults) then Inr int_key_record_json
      else Inl TypeError)"

definition sample_lib :: pylib where
  "sample_lib =
     \<lparr>json_loads = sample_loads, literal_eval = sample_literal_eval,
      json_dumps = sample_dumps, py_repr = sample_repr\<rparr>"

text \<open>
  A library that writes and reads objects of strings as described above and refuses
  everything else.
\<close>

definition json_lib :: pylib where
  "json_lib =
     \<lparr>json_loads =
        (\<lambda>t. case read_object t of
               Some d \<Rightarrow> Inr (PDict (str_items d))
             | None \<Rightarrow> Inl JSONDecodeError),
      literal_eval = (\<lambda>t. Inl SyntaxError),
      json_dumps =
        (\<lambda>v. case v of
               PDict kvs \<Rightarrow>
                 if list_all is_str (map fst kvs) \<and> list_all is_str (map snd kvs)
                 then Inr (write_object (strs_of kvs))
                 else Inl TypeError
             | _ \<Rightarrow> Inl TypeError),
      py_repr = sample_repr\<rparr>"

section \<open>Properties of strings\<close>

lemma u_eq_iff [simp]: "u a = u b \<longleftrightarrow> a = b"
proof -
  have "inj (of_char :: char \<Rightarrow> nat)"
    by (rule injI) simp
  then show ?thesis by (simp add: u_def)
qed

lemma length_u [simp]: "length (u s) = length s"
  by (simp add: u_def)

lemma u_Nil_iff [simp]: "u s = [] \<longleftrightarrow> s = []"
  by (simp add: u_def)

lemma lstrip_id: "s = [] \<or> \<not> py_isspace (hd s) \<Longrightarrow> lstrip s = s"
  by (cases s) (simp_all add: lstrip_def)

lemma rstrip_id: "s = [] \<or> \<not> py_isspace (last s) \<Longrightarrow> rstrip s = s"
proof (cases "s = []")
  case True
  then show ?thesis by (simp add: rstrip_def)
next
  case False
  assume "s = [] \<or> \<not> py_isspace (last s)"
  with False have "\<not> py_isspace (hd (rev s))" by (simp add: hd_rev)
  moreover from False have "rev s \<noteq> []" by simp
  ultimately have "dropWhile py_isspace (rev s) = rev s"
    by (cases "rev s") simp_all
  then show ?thesis by (simp add: rstrip_def)
qed

lemma strip_id:
  "s = [] \<or> (\<not> py_isspace (hd s) \<and> \<not> py_isspace (last s)) \<Longrightarrow> strip s = s"
  by (auto simp: strip_def lstrip_id rstrip_id)

lemma startswith_hd: "startswith s p \<Longrightarrow> p \<noteq> [] \<Longrightarrow> hd s = hd p"
  by (cases s; cases p) (auto simp: startswith_def)

lemma endswith_last: "endswith s p \<Longrightarrow> p \<noteq> [] \<Longrightarrow> last s = last p"
proof -
  assume a: "endswith s p" and p: "p \<noteq> []"
  then have "s = take (length s - length p) s @ p"
    by (metis append_take_drop_id endswith_def)
  then have "last s = last (take (length s - length p) s @ p)" by simp
  with p show ?thesis by (simp only: last_append if_False)
qed

lemma fence_chars: "hd (u ''```json'') = 96" "last (u ''```'') = 96" "\<not> py_isspace 96"
  "\<not> py_isspace 123" "\<not> py_isspace 125"
  by (simp_all add: u_def py_isspace_def)

text \<open>A text enclosed in braces is left as it is by the cleaning.\<close>

lemma clean_braces:
  assumes "s \<noteq> []" "hd s = 123" "last s = 125"
  shows "clean_json_str s = s"
proof -
  have st: "strip s = s" using assms by (simp add: strip_id fence_chars)
  have "\<not> startswith s (u ''```json'')"
    using startswith_hd [of s "u ''```json''"] assms by (auto simp: fence_chars)
  moreover have "\<not> endswith s (u ''```'')"
    using endswith_last [of s "u ''```''"] assms by (auto simp: fence_chars)
  ultimately show ?thesis by (simp add: clean_json_str_def st Let_def)
qed

section \<open>Properties of the rounding\<close>

text \<open>Rounding a positive number never gives zero: the significand has 53 bits.\<close>

lemma pow2_powi: "pow2 k = 2 powi k"
  by (simp add: pow2_def power_int_def inverse_eq_divide power_one_over)

lemma pow2_pos: "0 < pow2 k"
  by (simp add: pow2_powi)

lemma pow2_add: "pow2 (a + b) = pow2 a * pow2 b"
  by (simp add: pow2_powi power_int_add)

lemma round_half_even_ge: "1 \<le> m \<Longrightarrow> 1 \<le> round_half_even m"
proof -
  assume "1 \<le> m"
  then have "1 \<le> \<lfloor>m\<rfloor>" by (simp add: le_floor_iff)
  then show ?thesis by (simp add: round_half_even_def Let_def)
qed

lemma quotient_lower:
  assumes "0 < x" and q: "quotient_of x = (p, q)"
  shows "pow2 (bitlen p - bitlen q - 1) \<le> x"
proof -
  have qpos: "0 < q" using q by (rule quotient_of_denom_pos)
  have x: "x = of_int p / of_int q" using q by (rule quotient_of_div)
  have ppos: "0 < p" using assms(1) qpos x by (simp add: zero_less_divide_iff)
  have bp: "2 ^ nat (bitlen p - 1) \<le> p" using bitlen_bounds [OF ppos] by simp
  have bq: "q < 2 ^ nat (bitlen q)" using bitlen_bounds [OF qpos] by simp
  have bp1: "1 \<le> bitlen p" using ppos by (auto simp: bitlen_alt_def)
  have bq0: "0 \<le> bitlen q" by (rule bitlen_nonneg)
  have P: "(2::rat) powi (bitlen p - 1) \<le> of_int p"
  proof -
    have "(of_int (2 ^ nat (bitlen p - 1)) :: rat) \<le> of_int p" using bp by (simp only: of_int_le_iff)
    moreover have "(2::rat) powi (bitlen p - 1) = 2 ^ nat (bitlen p - 1)"
      using bp1 by (simp add: power_int_def)
    ultimately show ?thesis by simp
  qed
  have Q: "(of_int q :: rat) \<le> 2 powi (bitlen q)"
  proof -
    have "(of_int q :: rat) \<le> of_int (2 ^ nat (bitlen q))" using bq by (simp only: of_int_le_iff)
    moreover have "(2::rat) powi (bitlen q) = 2 ^ nat (bitlen q)"
      using bq0 by (simp add: power_int_def)
    ultimately show ?thesis by simp
  qed
  have "pow2 (bitlen p - bitlen q - 1) = 2 powi (bitlen p - 1) / 2 powi (bitlen q)"
    by (simp add: pow2_powi power_int_diff)
  also have "\<dots> \<le> of_int p / 2 powi (bitlen q)"
    using P by (simp add: divide_right_mono)
  also have "\<dots> \<le> of_int p / of_int q"
    using Q qpos ppos by (simp add: frac_le)
  finally show ?thesis using x by simp
qed

lemma fl_pos_positive:
  assumes "0 < x"
  shows "0 < fl_pos x"
proof -
  obtain p q where q: "quotient_of x = (p, q)" by (cases "quotient_of x")
  define d where "d = bitlen p - bitlen q"
  define e where "e = (if pow2 d \<le> x then d else d - 1)"
  have "pow2 e \<le> x"
    using quotient_lower [OF assms q] by (auto simp: e_def d_def)
  then have "pow2 e * pow2 (52 - e) \<le> x * pow2 (52 - e)"
    using pow2_pos [of "52 - e"] by (simp add: mult_right_mono)
  moreover have "pow2 e * pow2 (52 - e) = pow2 52"
    by (simp flip: pow2_add)
  moreover have "1 \<le> pow2 52" by (simp add: pow2_def)
  ultimately have "1 \<le> x * pow2 (52 - e)" by linarith
  then have "1 \<le> round_half_even (x * pow2 (52 - e))" by (rule round_half_even_ge)
  then have "0 < (of_int (round_half_even (x * pow2 (52 - e))) :: rat) * pow2 (e - 52)"
    using pow2_pos [of "e - 52"] by (simp add: zero_less_mult_iff)
  moreover have "fl_pos x = of_int (round_half_even (x * pow2 (52 - e))) * pow2 (e - 52)"
    by (simp add: fl_pos_def q Let_def d_def e_def)
  ultimately show ?thesis by simp
qed

lemma fl_positive: "0 < x \<Longrightarrow> 0 < fl x"
  by (simp add: fl_def fl_pos_positive)

lemma fl_zero: "fl 0 = 0"
  by (simp add: fl_def)
lemma fmul_positive: "0 < a \<Longrightarrow> 0 < b \<Longrightarrow> 0 < fmul a b"
  by (simp add: fmul_def fl_positive)

section \<open>Properties of the audio pipeline\<close>

subsection \<open>One row per file\<close>

lemma gemini_step_hd:
  "hd (snd (gemini_step pd f t resp needs tt tc)) = Text (filename f)"
  by (simp add: gemini_step_def error_row_def Let_def split: sum.split prod.split)

lemma process_file_hd: "hd (snd (process_file pd r t f)) = Text (filename f)"
  by (simp add: process_file_def gemini_step_hd error_row_def Let_def split: sum.split prod.split)

lemma process_loop_rows:
  "length (snd (process_loop pd r (t, res) fs)) = length res + length fs \<and>
   map hd (snd (process_loop pd r (t, res) fs)) = map hd res @ map (\<lambda>f. Text (filename f)) fs"
proof (induction fs arbitrary: t res)
  case Nil
  show ?case by simp
next
  case (Cons f fs)
  obtain t' row where pf: "process_file pd r t f = (t', row)"
    by (cases "process_file pd r t f")
  have "hd row = Text (filename f)"
    using process_file_hd [of pd r t f] pf by simp
  with Cons [of t' "res @ [row]"] pf show ?case by simp
qed

text \<open>
  C1. For a batch of \<open>n\<close> input files the rows written below the CSV header are exactly
  \<open>n + 1\<close>: the first \<open>n\<close> rows are the rows of the input files, one each and in order
  (each starts with the name of its file, whether processing succeeded or raised), and the
  last row is the TOTALS row. No failure of a file ends the loop or drops a row.
\<close>

theorem one_row_per_file_and_totals:
  "length (fst (process_all_audio_files pd r fs)) = length fs + 1 \<and>
   map hd (butlast (fst (process_all_audio_files pd r fs))) = map (\<lambda>f. Text (filename f)) fs \<and>
   hd (last (fst (process_all_audio_files pd r fs))) = Text (u ''TOTALS'')"
proof -
  obtain t res where pl: "process_loop pd r (zero_totals, []) fs = (t, res)"
    by (cases "process_loop pd r (zero_totals, []) fs")
  from process_loop_rows [of pd r zero_totals "[]" fs] pl
  have "length res = length fs" "map hd res = map (\<lambda>f. Text (filename f)) fs"
    by simp_all
  then show ?thesis
    by (simp add: process_all_audio_files_def pl totals_row_def Let_def)
qed

subsection \<open>Duration of a file that cannot be decoded\<close>

lemma size_estimate_ge_1: "1 \<le> size_estimate f"
  by (simp add: size_estimate_def split: sum.split)

lemma sarvam_price_positive: "0 < SARVAM_PRICING_get (u ''saarika:v2.5'') dflt"
  by (simp add: SARVAM_PRICING_get_def fl_positive)

lemma sarvam_cost:
  assumes "speech_to_text_sarvam pd f = Inr (tr, lang, lat, cost)"
  shows "cost = fmul (get_audio_duration pd f) (SARVAM_PRICING_get (u ''saarika:v2.5'') (fl (2 / 100000)))"
  using assms
  by (auto simp: speech_to_text_sarvam_def then_do_def Let_def split: sum.splits prod.splits if_splits)

text \<open>
  C8. When the duration cannot be measured from the decoded audio (decoding raises, or
  pydub is missing), the duration is the estimate from the file size,
  \<open>file_size / (1024 * 1024) * 60\<close> seconds, floored at one second; it is one second
  when even the size cannot be read. It is never below one second, and the Sarvam cost
  computed from it is never zero.
\<close>

theorem failed_probe_uses_size_estimate:
  assumes "isl (decode_ms f) \<or> \<not> PYDUB_AVAILABLE"
  shows "get_audio_duration PYDUB_AVAILABLE f =
           (case getsize f of
              Inr file_size \<Rightarrow> max 1 (fmul (fdiv (of_nat file_size) (1024 * 1024)) 60)
            | Inl e \<Rightarrow> 1)
         \<and> 1 \<le> get_audio_duration PYDUB_AVAILABLE f
         \<and> (\<forall>tr lang lat cost.
               speech_to_text_sarvam PYDUB_AVAILABLE f = Inr (tr, lang, lat, cost) \<longrightarrow> 0 < cost)"
proof -
  have d: "get_audio_duration PYDUB_AVAILABLE f = size_estimate f"
    using assms by (auto simp: get_audio_duration_def isl_def)
  have pos: "0 < get_audio_duration PYDUB_AVAILABLE f"
    using size_estimate_ge_1 [of f] d by simp
  have "0 < cost" if "speech_to_text_sarvam PYDUB_AVAILABLE f = Inr (tr, lang, lat, cost)"
    for tr lang lat cost
    using sarvam_cost [OF that] pos sarvam_price_positive by (simp add: fmul_positive)
  then show ?thesis
    using d size_estimate_ge_1 [of f] by (simp add: size_estimate_def)
qed

text \<open>The sample recording: two mebibytes are estimated at 120 seconds.\<close>

lemma hindi_clip_size_estimate: "fmul (fdiv 2097152 1048576) 60 = 120"
  by code_simp

lemma hindi_clip_sarvam:
  "speech_to_text_sarvam True hindi_clip =
     Inr (PStr (replicate 283 97), PStr (u ''hi-IN''), 3 / 2,
          fmul 120 (SARVAM_PRICING_get (u ''saarika:v2.5'') (fl (2 / 100000))))"
  by (simp add: speech_to_text_sarvam_def hindi_clip_def then_do_def http_json_def py_get_def
      get_audio_duration_def size_estimate_def hindi_clip_size_estimate)

theorem failed_probe_uses_size_estimate_witness:
  "isl (decode_ms hindi_clip) \<and> getsize hindi_clip = Inr 2097152 \<and>
   get_audio_duration True hindi_clip = 120 \<and>
   0 < fmul 120 (SARVAM_PRICING_get (u ''saarika:v2.5'') (fl (2 / 100000)))"
proof -
  have h: "isl (decode_ms hindi_clip) \<or> \<not> True"
    by (simp add: hindi_clip_def)
  have g: "getsize hindi_clip = Inr 2097152"
    by (simp add: hindi_clip_def)
  note fb = failed_probe_uses_size_estimate [OF h]
  have d: "get_audio_duration True hindi_clip = 120"
    using fb g by (simp add: hindi_clip_size_estimate)
  have "0 < fmul 120 (SARVAM_PRICING_get (u ''saarika:v2.5'') (fl (2 / 100000)))"
    using fb hindi_clip_sarvam by blast
  with h g d show ?thesis by simp
qed

subsection \<open>Cost of a translation call\<close>

lemma estimate_tokens_eq: "estimate_tokens text = fdiv (of_nat (length text)) 4"
  by (simp add: estimate_tokens_def fdiv_def fl_zero)

lemma GEMINI_input_text_value: "GEMINI_input_text = 2833419889721787 / 9444732965739290427392"
  by code_simp

lemma GEMINI_output_text_value: "GEMINI_output_text = 5902958103587057 / 2361183241434822606848"
  by code_simp

lemma tokens_400: "fdiv 400 4 = 100"
  by code_simp

lemma tokens_80: "fdiv 80 4 = 20"
  by code_simp

lemma cost_400_80:
  "fadd (fmul 100 (2833419889721787 / 9444732965739290427392))
        (fmul 20 (5902958103587057 / 2361183241434822606848)) =
   368934881474191 / 4611686018427387904"
  by code_simp

lemma literal_00008: "fl (8 / 100000) = 5902958103587057 / 73786976294838206464"
  by code_simp

lemma hindi_clip_prompt_length:
  "length (translate_prompt no_repr (PStr (replicate 283 97)) (PStr (u ''hi-IN''))) = 400"
  by (simp add: translate_prompt_def py_str_def)

lemma text_response_translation: "translation_of (text_response s) = Inr (strip s)"
  by (simp add: translation_of_def text_response_def then_do_def py_get_def py_index0_def py_strip_def)

lemma strip_b80: "strip (replicate 80 98) = replicate 80 98"
  by (simp add: strip_def lstrip_def rstrip_def py_isspace_def)

lemma translate_with_gemini_ok:
  assumes "translate_post f (translate_prompt r text lang) = Inr (response, latency)"
    and "ok response"
    and "json_body response = Inr result"
    and "translation_of result = Inr translation"
  shows "translate_with_gemini r f text lang =
           Inr (Some translation, latency,
                fadd (fmul (fdiv (of_nat (length (translate_prompt r text lang))) 4) GEMINI_input_text)
                     (fmul (fdiv (of_nat (length translation)) 4) GEMINI_output_text))"
  using assms
  by (simp add: translate_with_gemini_def then_do_def translation_cost_of_def
      estimate_tokens_eq Let_def)

lemma cost_of_400_and_80_characters:
  "fadd (fmul (fdiv 400 4) GEMINI_input_text) (fmul (fdiv 80 4) GEMINI_output_text) =
   368934881474191 / 4611686018427387904"
  by (simp only: tokens_400 tokens_80 GEMINI_input_text_value GEMINI_output_text_value cost_400_80)

lemma hindi_clip_translate_post:
  "translate_post hindi_clip p = Inr (http_json 200 (text_response (replicate 80 98)), 1 / 2)"
  by (simp add: hindi_clip_def)

lemma http_json_200: "ok (http_json 200 body) \<and> json_body (http_json 200 body) = Inr body"
  by (simp add: ok_def http_json_def)

lemma hindi_clip_translation:
  "translate_with_gemini no_repr hindi_clip (PStr (replicate 283 97)) (PStr (u ''hi-IN'')) =
     Inr (Some (replicate 80 98), 1 / 2, 368934881474191 / 4611686018427387904)"
  using translate_with_gemini_ok [OF hindi_clip_translate_post, of "text_response (replicate 80 98)"
      "replicate 80 98" no_repr "PStr (replicate 283 97)" "PStr (u ''hi-IN'')"]
  by (simp add: http_json_200 text_response_translation strip_b80 hindi_clip_prompt_length
      cost_of_400_and_80_characters)

text \<open>
  C7, as the code has it. A translation call answered with an \<open>ok\<close> response costs
  \<open>len(prompt) / 4 * input_text_price + len(output) / 4 * output_text_price\<close>, the token
  count of a text being its length divided by 4, every operation in double precision. For
  a prompt of 400 and an output of 80 characters the result is the double
  \<open>368934881474191 / 2 ^ 62\<close> (printed \<open>7.999999999999999e-05\<close>), within \<open>1e-19\<close> of
  \<open>0.00008\<close>.
\<close>

theorem translation_cost_formula:
  assumes "translate_post f (translate_prompt r text lang) = Inr (response, latency)"
    and "ok response"
    and "json_body response = Inr result"
    and "translation_of result = Inr translation"
  shows "translate_with_gemini r f text lang =
           Inr (Some translation, latency,
                fadd (fmul (fdiv (of_nat (length (translate_prompt r text lang))) 4) GEMINI_input_text)
                     (fmul (fdiv (of_nat (length translation)) 4) GEMINI_output_text))
         \<and> (length (translate_prompt r text lang) = 400 \<and> length translation = 80 \<longrightarrow>
              translate_with_gemini r f text lang =
                Inr (Some translation, latency, 368934881474191 / 4611686018427387904))
         \<and> \<bar>368934881474191 / 4611686018427387904 - (8 / 100000 :: rat)\<bar> < 1 / 10 ^ 19"
  using translate_with_gemini_ok [OF assms] cost_of_400_and_80_characters by simp

theorem translation_cost_formula_witness:
  "translate_post hindi_clip (translate_prompt no_repr (PStr (replicate 283 97)) (PStr (u ''hi-IN''))) =
     Inr (http_json 200 (text_response (replicate 80 98)), 1 / 2) \<and>
   ok (http_json 200 (text_response (replicate 80 98))) \<and>
   length (translate_prompt no_repr (PStr (replicate 283 97)) (PStr (u ''hi-IN''))) = 400 \<and>
   translate_with_gemini no_repr hindi_clip (PStr (replicate 283 97)) (PStr (u ''hi-IN'')) =
     Inr (Some (replicate 80 98), 1 / 2, 368934881474191 / 4611686018427387904)"
proof -
  have post: "translate_post hindi_clip (translate_prompt no_repr (PStr (replicate 283 97)) (PStr (u ''hi-IN''))) =
     Inr (http_json 200 (text_response (replicate 80 98)), 1 / 2)"
    by (rule hindi_clip_translate_post)
  have ok: "ok (http_json 200 (text_response (replicate 80 98)))"
    and body: "json_body (http_json 200 (text_response (replicate 80 98))) = Inr (text_response (replicate 80 98))"
    by (simp_all add: http_json_200)
  have tr: "translation_of (text_response (replicate 80 98)) = Inr (replicate 80 98)"
    by (simp add: text_response_translation strip_b80)
  note formula = translation_cost_formula [OF post ok body tr]
  have "length (replicate 80 (98::nat)) = 80"
    by simp
  with formula [THEN conjunct2, THEN conjunct1] hindi_clip_prompt_length
  have "translate_with_gemini no_repr hindi_clip (PStr (replicate 283 97)) (PStr (u ''hi-IN'')) =
     Inr (Some (replicate 80 98), 1 / 2, 368934881474191 / 4611686018427387904)"
    by blast
  with post ok hindi_clip_prompt_length show ?thesis
    by blast
qed

lemma cost_differs_from_literal:
  "(368934881474191 / 4611686018427387904 :: rat) \<noteq> fl (8 / 100000)"
  unfolding literal_00008 by simp

text \<open>
  The worked example, run through the code: the cost is neither the number
  \<open>0.00008\<close> nor the double that the literal \<open>0.00008\<close> denotes.
\<close>

theorem translation_cost_not_exactly_00008:
  "length (translate_prompt no_repr (PStr (replicate 283 97)) (PStr (u ''hi-IN''))) = 400 \<and>
   length (replicate 80 (98::nat)) = 80 \<and>
   translate_with_gemini no_repr hindi_clip (PStr (replicate 283 97)) (PStr (u ''hi-IN'')) =
     Inr (Some (replicate 80 98), 1 / 2, 368934881474191 / 4611686018427387904) \<and>
   (368934881474191 / 4611686018427387904 :: rat) \<noteq> 8 / 100000 \<and>
   (368934881474191 / 4611686018427387904 :: rat) \<noteq> fl (8 / 100000)"
proof (intro conjI)
  show "(368934881474191 / 4611686018427387904 :: rat) \<noteq> fl (8 / 100000)"
    by (rule cost_differs_from_literal)
  show "(368934881474191 / 4611686018427387904 :: rat) \<noteq> 8 / 100000"
    by simp
qed (simp_all only: hindi_clip_translation hindi_clip_prompt_length length_replicate)

subsection \<open>Translation of a file that is not in English\<close>

lemma gemini_step_cases:
  "gemini_step pd f t resp needs tt tc =
     (case speech_to_text_gemini pd f 2 of
        Inl e \<Rightarrow> (t, error_row f e)
      | Inr (g, glat, gcost) \<Rightarrow>
          (t\<lparr>total_gemini_time := fadd (total_gemini_time t) glat,
             total_gemini_cost := fadd (total_gemini_cost t) gcost\<rparr>,
           [Text (filename f), Seconds1 (get_audio_duration pd f), Value resp, Seconds2 tt,
            Dollars6 tc, Text (if needs then u ''Yes'' else u ''No''), Value (PStr g),
            Seconds2 glat, Dollars6 gcost]))"
  by (simp add: gemini_step_def Let_def split: sum.split prod.split)

lemma process_file_translated:
  assumes "speech_to_text_sarvam pd f = Inr (transcript, lang, slat, scost)"
    and "needs_translation lang"
    and "translate_with_gemini r f transcript lang = Inr (translation, tlat, tcost)"
  shows "process_file pd r t f =
           gemini_step pd f
             (t\<lparr>total_sarvam_time := fadd (total_sarvam_time t) slat,
                total_sarvam_cost := fadd (total_sarvam_cost t) scost,
                total_translation_time := fadd (total_translation_time t) tlat,
                total_translation_cost := fadd (total_translation_cost t) tcost\<rparr>)
             (case translation of
                Some s \<Rightarrow> if s \<noteq> [] then PStr s else transcript
              | None \<Rightarrow> transcript)
             True (fadd slat tlat) (fadd scost tcost)"
  using assms
  by (simp add: process_file_def translation_step_def then_do_def Let_def)

lemma process_file_translation_raises:
  assumes "speech_to_text_sarvam pd f = Inr (transcript, lang, slat, scost)"
    and "needs_translation lang"
    and "translate_with_gemini r f transcript lang = Inl e"
  shows "process_file pd r t f =
           (t\<lparr>total_sarvam_time := fadd (total_sarvam_time t) slat,
              total_sarvam_cost := fadd (total_sarvam_cost t) scost\<rparr>,
            error_row f e)"
  using assms
  by (simp add: process_file_def translation_step_def then_do_def Let_def)

lemma process_file_untranslated:
  assumes "speech_to_text_sarvam pd f = Inr (transcript, lang, slat, scost)"
    and "\<not> needs_translation lang"
  shows "process_file pd r t f =
           gemini_step pd f
             (t\<lparr>total_sarvam_time := fadd (total_sarvam_time t) slat,
                total_sarvam_cost := fadd (total_sarvam_cost t) scost\<rparr>)
             transcript False (fadd slat 0) (fadd scost 0)"
  using assms
  by (simp add: process_file_def translation_step_def then_do_def Let_def)

text \<open>
  C9, as the code has it. For a file whose detected language is neither \<open>en-IN\<close> nor
  \<open>en\<close> the driver calls the translation. Whenever that call returns (a text, an empty
  text, or \<open>None\<close> after a response that is not \<open>ok\<close>), its latency and cost are added
  to the batch translation totals and to the Sarvam total latency and cost of the file's
  row, the row shows the translation when it is a non-empty text and the untranslated
  transcript otherwise, and the file goes on to the Gemini transcription: its row is an
  error row only if that transcription raises. When the translation request itself raises,
  the exception reaches the handler of the loop: the file gets the error row, and the
  totals keep the Sarvam amounts only.
\<close>

theorem translation_call_accounting:
  assumes "speech_to_text_sarvam pd f = Inr (transcript, lang, slat, scost)"
    and "needs_translation lang"
  shows "(\<forall>translation tlat tcost.
            translate_with_gemini r f transcript lang = Inr (translation, tlat, tcost) \<longrightarrow>
              total_translation_time (fst (process_file pd r t f)) =
                fadd (total_translation_time t) tlat
            \<and> total_translation_cost (fst (process_file pd r t f)) =
                fadd (total_translation_cost t) tcost
            \<and> snd (process_file pd r t f) =
                (case speech_to_text_gemini pd f 2 of
                   Inl e \<Rightarrow> error_row f e
                 | Inr (gemini_resp, gemini_latency, gemini_cost) \<Rightarrow>
                     [Text (filename f), Seconds1 (get_audio_duration pd f),
                      Value (case translation of
                               Some s \<Rightarrow> if s \<noteq> [] then PStr s else transcript
                             | None \<Rightarrow> transcript),
                      Seconds2 (fadd slat tlat), Dollars6 (fadd scost tcost), Text (u ''Yes''),
                      Value (PStr gemini_resp), Seconds2 gemini_latency, Dollars6 gemini_cost]))
       \<and> (\<forall>e. translate_post f (translate_prompt r transcript lang) = Inl e \<longrightarrow>
              process_file pd r t f =
                (t\<lparr>total_sarvam_time := fadd (total_sarvam_time t) slat,
                   total_sarvam_cost := fadd (total_sarvam_cost t) scost\<rparr>,
                 error_row f e))"
proof (intro conjI allI impI)
  fix translation tlat tcost
  assume tr: "translate_with_gemini r f transcript lang = Inr (translation, tlat, tcost)"
  note pf = process_file_translated [OF assms tr, of t]
  show "total_translation_time (fst (process_file pd r t f)) = fadd (total_translation_time t) tlat"
    by (simp add: pf gemini_step_cases split: sum.split prod.split)
  show "total_translation_cost (fst (process_file pd r t f)) = fadd (total_translation_cost t) tcost"
    by (simp add: pf gemini_step_cases split: sum.split prod.split)
  show "snd (process_file pd r t f) =
          (case speech_to_text_gemini pd f 2 of
             Inl e \<Rightarrow> error_row f e
           | Inr (gemini_resp, gemini_latency, gemini_cost) \<Rightarrow>
               [Text (filename f), Seconds1 (get_audio_duration pd f),
                Value (case translation of
                         Some s \<Rightarrow> if s \<noteq> [] then PStr s else transcript
                       | None \<Rightarrow> transcript),
                Seconds2 (fadd slat tlat), Dollars6 (fadd scost tcost), Text (u ''Yes''),
                Value (PStr gemini_resp), Seconds2 gemini_latency, Dollars6 gemini_cost])"
    by (simp add: pf gemini_step_cases split: sum.split prod.split)
next
  fix e
  assume "translate_post f (translate_prompt r transcript lang) = Inl e"
  then have "translate_with_gemini r f transcript lang = Inl e"
    by (simp add: translate_with_gemini_def then_do_def)
  from process_file_translation_raises [OF assms this]
  show "process_file pd r t f =
          (t\<lparr>total_sarvam_time := fadd (total_sarvam_time t) slat,
             total_sarvam_cost := fadd (total_sarvam_cost t) scost\<rparr>,
           error_row f e)" .
qed

lemma hindi_needs_translation: "needs_translation (PStr (u ''hi-IN''))"
  by (simp add: needs_translation_def)

lemma strip_hello: "strip (u ''hello'') = u ''hello''"
  by (simp add: strip_def lstrip_def rstrip_def py_isspace_def u_def)

lemma text_response_transcript: "english_transcript_of (text_response s) = Inr (strip s)"
  by (simp add: english_transcript_of_def text_response_def then_do_def py_item_def
      py_index0_def py_strip_def)

lemma three_attempts: "[0 ..< 3] = [0, 1, 2]"
  by (simp add: upt_rec)

lemma hindi_clip_gemini:
  "speech_to_text_gemini True hindi_clip 2 = Inr (u ''hello'', 2, gemini_cost_of 120 (u ''hello''))"
  by (simp add: speech_to_text_gemini_def three_attempts hindi_clip_def then_do_def http_json_def
      ok_def text_response_transcript strip_hello get_audio_duration_def size_estimate_def
      hindi_clip_size_estimate)

lemmas sarvam_simps =
  speech_to_text_sarvam_def then_do_def http_json_def py_get_def get_audio_duration_def
  size_estimate_def hindi_clip_size_estimate hindi_clip_def

lemma hindi_clip_offline_sarvam:
  "speech_to_text_sarvam True hindi_clip_offline =
     Inr (PStr (replicate 283 97), PStr (u ''hi-IN''), 3 / 2,
          fmul 120 (SARVAM_PRICING_get (u ''saarika:v2.5'') (fl (2 / 100000))))"
  by (simp add: sarvam_simps hindi_clip_offline_def)

lemma hindi_clip_unavailable_sarvam:
  "speech_to_text_sarvam True hindi_clip_unavailable =
     Inr (PStr (replicate 283 97), PStr (u ''hi-IN''), 3 / 2,
          fmul 120 (SARVAM_PRICING_get (u ''saarika:v2.5'') (fl (2 / 100000))))"
  by (simp add: sarvam_simps hindi_clip_unavailable_def)

lemma hindi_clip_gemini_down_sarvam:
  "speech_to_text_sarvam True hindi_clip_gemini_down =
     Inr (PStr (replicate 283 97), PStr (u ''hi-IN''), 3 / 2,
          fmul 120 (SARVAM_PRICING_get (u ''saarika:v2.5'') (fl (2 / 100000))))"
  by (simp add: sarvam_simps hindi_clip_gemini_down_def)

lemma hindi_clip_offline_translation:
  "translate_with_gemini r hindi_clip_offline text lang = Inl RequestException"
  by (simp add: translate_with_gemini_def then_do_def hindi_clip_offline_def)

lemma hindi_clip_unavailable_translation:
  "translate_with_gemini r hindi_clip_unavailable text lang = Inr (None, 1 / 4, 0)"
  by (simp add: translate_with_gemini_def then_do_def hindi_clip_unavailable_def ok_def)

lemma hindi_clip_gemini_down_translation:
  "translate_with_gemini no_repr hindi_clip_gemini_down (PStr (replicate 283 97)) (PStr (u ''hi-IN'')) =
     Inr (Some (replicate 80 98), 1 / 2, 368934881474191 / 4611686018427387904)"
proof -
  have "translate_with_gemini no_repr hindi_clip_gemini_down (PStr (replicate 283 97)) (PStr (u ''hi-IN'')) =
        translate_with_gemini no_repr hindi_clip (PStr (replicate 283 97)) (PStr (u ''hi-IN''))"
    by (simp add: translate_with_gemini_def hindi_clip_gemini_down_def)
  then show ?thesis by (simp only: hindi_clip_translation)
qed

lemma duration_independent_of_translation:
  "get_audio_duration pd (f\<lparr>translate_post := p\<rparr>) = get_audio_duration pd f"
  by (simp add: get_audio_duration_def size_estimate_def split: sum.split)

lemma gemini_independent_of_translation:
  "speech_to_text_gemini pd (f\<lparr>translate_post := p\<rparr>) n = speech_to_text_gemini pd f n"
  by (simp add: speech_to_text_gemini_def duration_independent_of_translation
      split: option.split)

lemma hindi_clip_offline_gemini:
  "speech_to_text_gemini True hindi_clip_offline 2 =
     Inr (u ''hello'', 2, gemini_cost_of 120 (u ''hello''))"
  by (simp add: hindi_clip_offline_def gemini_independent_of_translation hindi_clip_gemini)

lemma hindi_clip_gemini_down_gemini:
  "speech_to_text_gemini True hindi_clip_gemini_down 2 =
     Inl (ApiError (u ''Gemini API Error'') 500 (u ''internal error''))"
  by (simp add: speech_to_text_gemini_def three_attempts hindi_clip_gemini_down_def hindi_clip_def
      then_do_def ok_def)

text \<open>
  The sample recording with a translation that comes back, with one that is refused
  (status 503), and with a request that cannot reach the service.
\<close>

theorem translation_call_accounting_witness:
  "needs_translation (PStr (u ''hi-IN'')) \<and>
   total_translation_time (fst (process_file True no_repr zero_totals hindi_clip)) = fadd 0 (1 / 2) \<and>
   total_translation_cost (fst (process_file True no_repr zero_totals hindi_clip)) =
     fadd 0 (368934881474191 / 4611686018427387904) \<and>
   snd (process_file True no_repr zero_totals hindi_clip) =
     [Text (u ''clips/hindi.wav''), Seconds1 120, Value (PStr (replicate 80 98)),
      Seconds2 (fadd (3 / 2) (1 / 2)),
      Dollars6 (fadd (fmul 120 (SARVAM_PRICING_get (u ''saarika:v2.5'') (fl (2 / 100000))))
                     (368934881474191 / 4611686018427387904)),
      Text (u ''Yes''), Value (PStr (u ''hello'')), Seconds2 2,
      Dollars6 (gemini_cost_of 120 (u ''hello''))] \<and>
   total_translation_time (fst (process_file True no_repr zero_totals hindi_clip_unavailable)) =
     fadd 0 (1 / 4) \<and>
   snd (process_file True no_repr zero_totals hindi_clip_unavailable) =
     [Text (u ''clips/hindi.wav''), Seconds1 120, Value (PStr (replicate 283 97)),
      Seconds2 (fadd (3 / 2) (1 / 4)),
      Dollars6 (fadd (fmul 120 (SARVAM_PRICING_get (u ''saarika:v2.5'') (fl (2 / 100000)))) 0),
      Text (u ''Yes''), Value (PStr (u ''hello'')), Seconds2 2,
      Dollars6 (gemini_cost_of 120 (u ''hello''))] \<and>
   snd (process_file True no_repr zero_totals hindi_clip_offline) =
     error_row hindi_clip_offline RequestException"
proof -
  note a = translation_call_accounting
    [OF hindi_clip_sarvam hindi_needs_translation, of no_repr zero_totals,
     THEN conjunct1, rule_format, OF hindi_clip_translation]
  note b = translation_call_accounting
    [OF hindi_clip_unavailable_sarvam hindi_needs_translation, of no_repr zero_totals,
     THEN conjunct1, rule_format, OF hindi_clip_unavailable_translation]
  have post: "translate_post hindi_clip_offline
                (translate_prompt no_repr (PStr (replicate 283 97)) (PStr (u ''hi-IN''))) =
              Inl RequestException"
    by (simp add: hindi_clip_offline_def)
  note c = translation_call_accounting
    [OF hindi_clip_offline_sarvam hindi_needs_translation, of no_repr zero_totals,
     THEN conjunct2, rule_format, OF post]
  have g: "speech_to_text_gemini True hindi_clip_unavailable 2 =
           Inr (u ''hello'', 2, gemini_cost_of 120 (u ''hello''))"
    by (simp add: hindi_clip_unavailable_def gemini_independent_of_translation hindi_clip_gemini)
  have d: "get_audio_duration True hindi_clip = 120"
    "get_audio_duration True hindi_clip_unavailable = 120"
    by (simp_all add: get_audio_duration_def size_estimate_def hindi_clip_def
        hindi_clip_unavailable_def hindi_clip_size_estimate)
  have n: "filename hindi_clip = u ''clips/hindi.wav''"
    "filename hindi_clip_unavailable = u ''clips/hindi.wav''"
    by (simp_all add: hindi_clip_def hindi_clip_unavailable_def)
  show ?thesis
    using a b c hindi_needs_translation
    by (simp add: hindi_clip_gemini g d n zero_totals_def)
qed

text \<open>
  A file whose translation request loses the connection: the row is the error row, nothing
  is added for the translation, and the Gemini transcription, which would have succeeded,
  is not reached.
\<close>

theorem raising_translation_call_ends_the_file:
  "needs_translation (PStr (u ''hi-IN'')) \<and>
   speech_to_text_sarvam True hindi_clip_offline =
     Inr (PStr (replicate 283 97), PStr (u ''hi-IN''), 3 / 2,
          fmul 120 (SARVAM_PRICING_get (u ''saarika:v2.5'') (fl (2 / 100000)))) \<and>
   translate_post hindi_clip_offline
     (translate_prompt no_repr (PStr (replicate 283 97)) (PStr (u ''hi-IN''))) =
     Inl RequestException \<and>
   snd (process_file True no_repr zero_totals hindi_clip_offline) =
     error_row hindi_clip_offline RequestException \<and>
   total_translation_time (fst (process_file True no_repr zero_totals hindi_clip_offline)) = 0 \<and>
   total_translation_cost (fst (process_file True no_repr zero_totals hindi_clip_offline)) = 0 \<and>
   speech_to_text_gemini True hindi_clip_offline 2 =
     Inr (u ''hello'', 2, gemini_cost_of 120 (u ''hello''))"
proof -
  have "translate_post hindi_clip_offline
     (translate_prompt no_repr (PStr (replicate 283 97)) (PStr (u ''hi-IN''))) =
     Inl RequestException"
    by (simp add: hindi_clip_offline_def)
  then show ?thesis
    by (simp add: hindi_needs_translation hindi_clip_offline_sarvam
      process_file_translation_raises [OF hindi_clip_offline_sarvam hindi_needs_translation
        hindi_clip_offline_translation]
      zero_totals_def hindi_clip_offline_gemini)
qed

subsection \<open>Totals of a batch with failed files\<close>

lemma process_loop_totals:
  "fst (process_loop pd r (t, res) fs) = foldl (\<lambda>t f. fst (process_file pd r t f)) t fs"
proof (induction fs arbitrary: t res)
  case Nil
  show ?case by simp
next
  case (Cons f fs)
  obtain t' row where pf: "process_file pd r t f = (t', row)"
    by (cases "process_file pd r t f")
  with Cons [of t' "res @ [row]"] show ?case by simp
qed

text \<open>
  C10. The TOTALS row is computed from the running totals after the last file, and every
  file adds to them stage by stage: a file whose Sarvam transcription succeeded (and whose
  translation call, when one was needed, returned) but whose Gemini transcription raised
  leaves its Sarvam and translation latency and cost in the totals, while its own row is
  the error row with the \<open>N/A\<close> cells.
\<close>

theorem totals_keep_what_failed_files_accrued:
  assumes "speech_to_text_sarvam pd f = Inr (transcript, lang, slat, scost)"
    and "needs_translation lang \<Longrightarrow>
           translate_with_gemini r f transcript lang = Inr (translation, tlat, tcost)"
    and "speech_to_text_gemini pd f 2 = Inl e"
  shows "process_file pd r t f =
           (t\<lparr>total_sarvam_time := fadd (total_sarvam_time t) slat,
              total_sarvam_cost := fadd (total_sarvam_cost t) scost,
              total_translation_time :=
                (if needs_translation lang then fadd (total_translation_time t) tlat
                 else total_translation_time t),
              total_translation_cost :=
                (if needs_translation lang then fadd (total_translation_cost t) tcost
                 else total_translation_cost t)\<rparr>,
            error_row f e)
       \<and> last (fst (process_all_audio_files pd r fs)) =
           totals_row (foldl (\<lambda>t f. fst (process_file pd r t f)) zero_totals fs)"
proof -
  obtain t' res where pl: "process_loop pd r (zero_totals, []) fs = (t', res)"
    by (cases "process_loop pd r (zero_totals, []) fs")
  have "t' = foldl (\<lambda>t f. fst (process_file pd r t f)) zero_totals fs"
    using process_loop_totals [of pd r zero_totals "[]" fs] pl by simp
  then have batch: "last (fst (process_all_audio_files pd r fs)) =
           totals_row (foldl (\<lambda>t f. fst (process_file pd r t f)) zero_totals fs)"
    by (simp add: process_all_audio_files_def pl Let_def)
  show ?thesis
  proof (cases "needs_translation lang")
    case True
    with assms(2) have "translate_with_gemini r f transcript lang = Inr (translation, tlat, tcost)"
      by simp
    from process_file_translated [OF assms(1) True this] batch True show ?thesis
      by (simp add: gemini_step_cases assms(3))
  next
    case False
    from process_file_untranslated [OF assms(1) False] batch False show ?thesis
      by (simp add: gemini_step_cases assms(3))
  qed
qed

lemma hindi_clip_gemini_down_times: "fadd (fadd 0 (3 / 2)) (fadd 0 (1 / 2)) = 2"
  by code_simp

theorem totals_keep_what_failed_files_accrued_witness:
  "speech_to_text_gemini True hindi_clip_gemini_down 2 =
     Inl (ApiError (u ''Gemini API Error'') 500 (u ''internal error'')) \<and>
   process_file True no_repr zero_totals hindi_clip_gemini_down =
     (zero_totals\<lparr>total_sarvam_time := fadd 0 (3 / 2),
                   total_sarvam_cost :=
                     fadd 0 (fmul 120 (SARVAM_PRICING_get (u ''saarika:v2.5'') (fl (2 / 100000)))),
                   total_translation_time := fadd 0 (1 / 2),
                   total_translation_cost := fadd 0 (368934881474191 / 4611686018427387904)\<rparr>,
      error_row hindi_clip_gemini_down (ApiError (u ''Gemini API Error'') 500 (u ''internal error''))) \<and>
   last (fst (process_all_audio_files True no_repr [hindi_clip_gemini_down])) =
     [Text (u ''TOTALS''), Text [], Text [], Seconds2 2,
      Dollars6 (fadd (fadd 0 (fmul 120 (SARVAM_PRICING_get (u ''saarika:v2.5'') (fl (2 / 100000)))))
                     (fadd 0 (368934881474191 / 4611686018427387904))),
      Text [], Text [], Seconds2 0, Dollars6 0]"
proof -
  have tr: "needs_translation (PStr (u ''hi-IN'')) \<Longrightarrow>
      translate_with_gemini no_repr hindi_clip_gemini_down (PStr (replicate 283 97)) (PStr (u ''hi-IN'')) =
        Inr (Some (replicate 80 98), 1 / 2, 368934881474191 / 4611686018427387904)"
    by (simp only: hindi_clip_gemini_down_translation)
  note acc = totals_keep_what_failed_files_accrued
    [OF hindi_clip_gemini_down_sarvam tr hindi_clip_gemini_down_gemini,
     of zero_totals "[hindi_clip_gemini_down]"]
  have pf: "process_file True no_repr zero_totals hindi_clip_gemini_down =
     (zero_totals\<lparr>total_sarvam_time := fadd 0 (3 / 2),
                   total_sarvam_cost :=
                     fadd 0 (fmul 120 (SARVAM_PRICING_get (u ''saarika:v2.5'') (fl (2 / 100000)))),
                   total_translation_time := fadd 0 (1 / 2),
                   total_translation_cost := fadd 0 (368934881474191 / 4611686018427387904)\<rparr>,
      error_row hindi_clip_gemini_down (ApiError (u ''Gemini API Error'') 500 (u ''internal error'')))"
    using acc hindi_needs_translation by (simp add: zero_totals_def)
  have "last (fst (process_all_audio_files True no_repr [hindi_clip_gemini_down])) =
        totals_row (fst (process_file True no_repr zero_totals hindi_clip_gemini_down))"
    using acc by simp
  also have "\<dots> =
     [Text (u ''TOTALS''), Text [], Text [], Seconds2 2,
      Dollars6 (fadd (fadd 0 (fmul 120 (SARVAM_PRICING_get (u ''saarika:v2.5'') (fl (2 / 100000)))))
                     (fadd 0 (368934881474191 / 4611686018427387904))),
      Text [], Text [], Seconds2 0, Dollars6 0]"
    by (simp only: pf fst_conv)
      (simp add: totals_row_def zero_totals_def Let_def hindi_clip_gemini_down_times)
  finally show ?thesis
    using pf hindi_clip_gemini_down_gemini by simp
qed

section \<open>Properties of the parser\<close>

subsection \<open>Keys and values of the returned record\<close>

lemma is_str_PStr [simp]: "is_str (PStr x)"
  by (simp add: is_str_def)

lemma stringify_value_str: "stringify_value lib (PStr x) = Inr x"
  by (simp add: stringify_value_def py_str_def)

lemma stringify_items_shape:
  "stringify_items lib items = Inr items' \<Longrightarrow>
     map fst items' = map fst items \<and> list_all is_str (map snd items')"
proof (induction items arbitrary: items')
  case Nil
  then show ?case by simp
next
  case (Cons kv items)
  obtain k v where kv: "kv = (k, v)" by (cases kv)
  from Cons.prems kv obtain s rest where
    "stringify_value lib v = Inr s" "stringify_items lib items = Inr rest" "items' = (k, PStr s) # rest"
    by (auto simp: then_do_def split: sum.splits)
  with Cons.IH [of rest] kv show ?case by simp
qed

lemma stringify_items_lookup:
  "stringify_items lib items = Inr items' \<Longrightarrow> map_of items k = Some v \<Longrightarrow>
     \<exists>s. stringify_value lib v = Inr s \<and> map_of items' k = Some (PStr s)"
proof (induction items arbitrary: items')
  case Nil
  then show ?case by simp
next
  case (Cons kv items)
  obtain k' v' where kv: "kv = (k', v')" by (cases kv)
  from Cons.prems(1) kv obtain s rest where
    *: "stringify_value lib v' = Inr s" "stringify_items lib items = Inr rest" "items' = (k', PStr s) # rest"
    by (auto simp: then_do_def split: sum.splits)
  show ?case
  proof (cases "k = k'")
    case True
    with Cons.prems(2) kv * show ?thesis by simp
  next
    case False
    with Cons.prems(2) kv have "map_of items k = Some v" by simp
    from Cons.IH [OF *(2) this] False * show ?thesis by simp
  qed
qed

lemma stringify_items_strings:
  "list_all is_str (map snd items) \<Longrightarrow> stringify_items lib items = Inr items"
proof (induction items)
  case Nil
  show ?case by simp
next
  case (Cons kv items)
  obtain k v where kv: "kv = (k, v)" by (cases kv)
  with Cons.prems obtain x where "v = PStr x"
    by (cases v) (simp_all add: is_str_def)
  with Cons kv show ?case by (simp add: then_do_def stringify_value_str)
qed

lemma map_of_ensure_field:
  "map_of (ensure_field d field) k =
     (case map_of d k of
        Some v \<Rightarrow> Some v
      | None \<Rightarrow> if k = PStr field then Some (PStr (u ''Not specified'')) else None)"
proof (cases "PStr field \<in> set (map fst d)")
  case True
  then have "map_of d (PStr field) \<noteq> None"
    by (simp add: map_of_eq_None_iff)
  with True show ?thesis
    by (auto simp: ensure_field_def split: option.split)
next
  case False
  then have "map_of d (PStr field) = None"
    by (simp add: map_of_eq_None_iff)
  with False show ?thesis
    by (auto simp: ensure_field_def map_add_def split: option.split)
qed

lemma map_of_ensure_fields:
  "map_of (foldl ensure_field d fs) k =
     (case map_of d k of
        Some v \<Rightarrow> Some v
      | None \<Rightarrow> if k \<in> PStr ` set fs then Some (PStr (u ''Not specified'')) else None)"
proof (induction fs arbitrary: d)
  case Nil
  show ?case by (simp split: option.split)
next
  case (Cons f fs)
  show ?case
    by (simp add: Cons.IH [of "ensure_field d f"] map_of_ensure_field split: option.split)
qed

lemma keys_ensure_fields: "keys (foldl ensure_field d fs) = keys d \<union> PStr ` set fs"
proof (induction fs arbitrary: d)
  case Nil
  show ?case by simp
next
  case (Cons f fs)
  have "keys (ensure_field d f) = insert (PStr f) (keys d)"
    by (auto simp: ensure_field_def keys_def)
  with Cons.IH [of "ensure_field d f"] show ?case by auto
qed

lemma values_ensure_fields:
  "list_all is_str (map snd d) \<Longrightarrow> list_all is_str (map snd (foldl ensure_field d fs))"
proof (induction fs arbitrary: d)
  case Nil
  then show ?case by simp
next
  case (Cons f fs)
  from Cons.prems have "list_all is_str (map snd (ensure_field d f))"
    by (simp add: ensure_field_def)
  then show ?case using Cons.IH by simp
qed

lemma parse_try_Inr:
  "parse_try lib s = Inr d \<Longrightarrow>
     \<exists>items items'. load_meta_dict lib (clean_json_str s) = Inr (PDict items) \<and>
       stringify_items lib items = Inr items' \<and> d = foldl ensure_field items' required_fields"
  by (auto simp: parse_try_def then_do_def split: sum.splits pyval.splits)

lemma keys_error_record: "keys error_record = PStr ` set required_fields"
  by (auto simp: error_record_def keys_def)

lemma values_error_record: "list_all is_str (map snd error_record)"
  by (simp add: error_record_def list_all_iff)

text \<open>
  C2, as the code has it. Every record the parser returns has the eleven category keys,
  and every value in it is a string. The record is not restricted to those keys: the keys
  outside the eleven are exactly the other keys of the parsed object, and there are none
  when the error record is returned.
\<close>

theorem record_has_the_eleven_fields_and_strings:
  "keys (parse_meta_tags_json lib s) =
     set (map PStr required_fields) \<union>
     (case parse_try lib s of
        Inl e \<Rightarrow> {}
      | Inr d \<Rightarrow> (case load_meta_dict lib (clean_json_str s) of
                    Inr (PDict items) \<Rightarrow> keys items
                  | _ \<Rightarrow> {}))
   \<and> list_all is_str (map snd (parse_meta_tags_json lib s))"
proof (cases "parse_try lib s")
  case (Inl e)
  then show ?thesis
    by (simp add: parse_meta_tags_json_def keys_error_record values_error_record)
next
  case (Inr d)
  from parse_try_Inr [OF this] obtain items items' where
    l: "load_meta_dict lib (clean_json_str s) = Inr (PDict items)" and
    st: "stringify_items lib items = Inr items'" and
    d: "d = foldl ensure_field items' required_fields"
    by blast
  from stringify_items_shape [OF st] have "keys items' = keys items" "list_all is_str (map snd items')"
    by (simp_all add: keys_def)
  with Inr l d show ?thesis
    by (auto simp: parse_meta_tags_json_def keys_ensure_fields values_ensure_fields)
qed

subsection \<open>An object with a key of its own\<close>

lemma u_append: "u a @ u b = u (a @ b)"
  by (simp add: u_def)

lemma hd_u: "hd (u (c # cs)) = of_char c" "u (c # cs) \<noteq> []"
  by (simp_all add: u_def)

lemma extra_json_clean: "clean_json_str extra_json = extra_json"
  by (rule clean_braces) (simp_all add: extra_json_def u_def)

lemma extra_json_loads:
  "load_meta_dict sample_lib extra_json = Inr (PDict [(PStr (u ''extra''), PStr (u ''x''))])"
  by (simp add: load_meta_dict_def sample_lib_def sample_loads_def extra_json_def)

lemma ensure_defaults_extra:
  "foldl ensure_field [(PStr (u ''extra''), PStr (u ''x''))] required_fields =
     (PStr (u ''extra''), PStr (u ''x'')) # defaults"
  by (simp add: required_fields_def ensure_field_def defaults_def)

lemma extra_json_record:
  "parse_meta_tags_json sample_lib extra_json = (PStr (u ''extra''), PStr (u ''x'')) # defaults"
  by (simp add: parse_meta_tags_json_def parse_try_def extra_json_clean extra_json_loads
      then_do_def stringify_value_str ensure_defaults_extra)

text \<open>
  The object \<open>{"extra": "x"}\<close> comes back with twelve keys: \<open>extra\<close> is kept.
\<close>

theorem record_with_a_twelfth_key:
  "PStr (u ''extra'') \<in> keys (parse_meta_tags_json sample_lib extra_json) \<and>
   PStr (u ''extra'') \<notin> set (map PStr required_fields) \<and>
   length (parse_meta_tags_json sample_lib extra_json) = 12"
  by (simp add: extra_json_record keys_def required_fields_def defaults_def)

subsection \<open>Missing fields\<close>

lemma stringify_items_total:
  "list_all (\<lambda>v. \<not> isl (stringify_value lib v)) (map snd items) \<Longrightarrow>
     \<exists>items'. stringify_items lib items = Inr items'"
proof (induction items)
  case Nil
  show ?case by simp
next
  case (Cons kv items)
  obtain k v where kv: "kv = (k, v)" by (cases kv)
  from Cons.prems kv have "\<not> isl (stringify_value lib v)" by simp
  then obtain x where "stringify_value lib v = Inr x"
    by (cases "stringify_value lib v") simp_all
  moreover from Cons obtain items' where "stringify_items lib items = Inr items'"
    by auto
  ultimately show ?case using kv by (simp add: then_do_def)
qed

lemma parse_loaded_object:
  assumes "json_loads lib (clean_json_str s) = Inr (PDict items)"
    and "stringify_items lib items = Inr items'"
  shows "parse_meta_tags_json lib s = foldl ensure_field items' required_fields"
  using assms
  by (simp add: parse_meta_tags_json_def parse_try_def load_meta_dict_def then_do_def)

lemma stringify_value_cases:
  "stringify_value lib v =
     (if is_list_or_dict v then json_dumps lib v
      else if is_str v then Inr (case v of PStr x \<Rightarrow> x | _ \<Rightarrow> [])
      else Inr (py_repr lib v))"
  by (cases v) (simp_all add: stringify_value_def is_list_or_dict_def is_str_def py_str_def)

lemma dumps_accepts_then_stringify:
  "list_all (\<lambda>v. is_list_or_dict v \<longrightarrow> \<not> isl (json_dumps lib v)) vs \<Longrightarrow>
     list_all (\<lambda>v. \<not> isl (stringify_value lib v)) vs"
  by (induction vs) (auto simp: stringify_value_cases)

text \<open>
  C3, as the code has it. When the cleaned input parses as a JSON object (and
  \<open>json.dumps\<close> accepts the lists and objects among its values, as it does for
  everything \<open>json.loads\<close> produces), each of the eleven keys the object lacks is mapped
  to \<open>Not specified\<close>, and each key present with a string value keeps that string
  unchanged. The other present values are not kept as they are: a list or an object is
  replaced by the text \<open>json.dumps\<close> writes for it, and any other value (a number, a
  boolean, \<open>null\<close>) by what \<open>str\<close> prints for it.
\<close>

theorem missing_fields_defaulted_present_values_as_strings:
  assumes "json_loads lib (clean_json_str s) = Inr (PDict items)"
    and "list_all (\<lambda>v. is_list_or_dict v \<longrightarrow> \<not> isl (json_dumps lib v)) (map snd items)"
  shows "(\<forall>field \<in> set required_fields.
            map_of items (PStr field) = None \<longrightarrow>
            map_of (parse_meta_tags_json lib s) (PStr field) = Some (PStr (u ''Not specified'')))
       \<and> (\<forall>k x. map_of items k = Some (PStr x) \<longrightarrow>
                  map_of (parse_meta_tags_json lib s) k = Some (PStr x))
       \<and> (\<forall>k v. map_of items k = Some v \<longrightarrow> is_list_or_dict v \<longrightarrow>
                  (\<exists>x. json_dumps lib v = Inr x \<and>
                       map_of (parse_meta_tags_json lib s) k = Some (PStr x)))
       \<and> (\<forall>k v. map_of items k = Some v \<longrightarrow> \<not> is_list_or_dict v \<longrightarrow> \<not> is_str v \<longrightarrow>
                  map_of (parse_meta_tags_json lib s) k = Some (PStr (py_repr lib v)))"
proof -
  from stringify_items_total [OF dumps_accepts_then_stringify [OF assms(2)]] obtain items' where
    st: "stringify_items lib items = Inr items'" by blast
  note p = parse_loaded_object [OF assms(1) st]
  have keep: "\<exists>x. stringify_value lib v = Inr x \<and>
                map_of (parse_meta_tags_json lib s) k = Some (PStr x)"
    if "map_of items k = Some v" for k v
  proof -
    from stringify_items_lookup [OF st that] obtain x where
      "stringify_value lib v = Inr x" "map_of items' k = Some (PStr x)" by blast
    then show ?thesis by (simp add: p map_of_ensure_fields)
  qed
  have str: "map_of (parse_meta_tags_json lib s) k = Some (PStr x)"
    if "map_of items k = Some (PStr x)" for k x
    using keep [OF that] by (simp add: stringify_value_str)
  have cont: "\<exists>x. json_dumps lib v = Inr x \<and> map_of (parse_meta_tags_json lib s) k = Some (PStr x)"
    if "map_of items k = Some v" "is_list_or_dict v" for k v
    using keep [OF that(1)] that(2) by (simp add: stringify_value_cases)
  have scal: "map_of (parse_meta_tags_json lib s) k = Some (PStr (py_repr lib v))"
    if "map_of items k = Some v" "\<not> is_list_or_dict v" "\<not> is_str v" for k v
    using keep [OF that(1)] that(2,3) by (auto simp: stringify_value_cases)
  have dflt: "map_of (parse_meta_tags_json lib s) (PStr field) = Some (PStr (u ''Not specified''))"
    if "field \<in> set required_fields" "map_of items (PStr field) = None" for field
  proof -
    from stringify_items_shape [OF st] have "map fst items' = map fst items"
      by simp
    then have "fst ` set items' = fst ` set items"
      by (metis set_map)
    with that(2) have "map_of items' (PStr field) = None"
      by (simp add: map_of_eq_None_iff)
    with that(1) show ?thesis by (simp add: p map_of_ensure_fields)
  qed
  from str cont scal dflt show ?thesis by blast
qed

lemma eight_keys_json_clean: "clean_json_str eight_keys_json = eight_keys_json"
  by (rule clean_braces) (simp_all add: eight_keys_json_def u_def)

lemma eight_keys_json_loads:
  "json_loads sample_lib eight_keys_json = Inr (PDict eight_keys_items)"
  by (simp add: sample_lib_def sample_loads_def eight_keys_json_def extra_json_def u_append)

lemma null_json_clean: "clean_json_str null_json = null_json"
  by (rule clean_braces) (simp_all add: null_json_def u_def)

lemma null_json_loads:
  "json_loads sample_lib null_json = Inr (PDict [(PStr (u ''keywords''), PNone)])"
  by (simp add: sample_lib_def sample_loads_def null_json_def extra_json_def eight_keys_json_def
      extra_record_json_def int_key_record_json_def defaults_json_def u_append)

theorem missing_fields_defaulted_present_values_as_strings_witness:
  "json_loads sample_lib (clean_json_str eight_keys_json) = Inr (PDict eight_keys_items) \<and>
   map_of (parse_meta_tags_json sample_lib eight_keys_json) (PStr (u ''emotions_primary'')) =
     Some (PStr (u ''Not specified'')) \<and>
   map_of (parse_meta_tags_json sample_lib eight_keys_json) (PStr (u ''emotions_secondary'')) =
     Some (PStr (u ''Not specified'')) \<and>
   map_of (parse_meta_tags_json sample_lib eight_keys_json) (PStr (u ''keywords'')) =
     Some (PStr (u ''Not specified'')) \<and>
   map_of (parse_meta_tags_json sample_lib eight_keys_json) (PStr (u ''character_primary'')) =
     Some (PStr (u ''Asha'')) \<and>
   map_of (parse_meta_tags_json sample_lib eight_keys_json) (PStr (u ''events_secondary'')) =
     Some (PStr (u ''picnic'')) \<and>
   json_loads sample_lib (clean_json_str null_json) = Inr (PDict [(PStr (u ''keywords''), PNone)]) \<and>
   map_of (parse_meta_tags_json sample_lib null_json) (PStr (u ''theme_primary'')) =
     Some (PStr (u ''Not specified'')) \<and>
   map_of (parse_meta_tags_json sample_lib null_json) (PStr (u ''keywords'')) =
     Some (PStr (py_repr sample_lib PNone))"
proof -
  have l: "json_loads sample_lib (clean_json_str eight_keys_json) = Inr (PDict eight_keys_items)"
    by (simp only: eight_keys_json_clean eight_keys_json_loads)
  have d: "list_all (\<lambda>v. is_list_or_dict v \<longrightarrow> \<not> isl (json_dumps sample_lib v))
             (map snd eight_keys_items)"
    by (simp add: eight_keys_items_def is_list_or_dict_def)
  note t = missing_fields_defaulted_present_values_as_strings [OF l d]
  have req: "u ''emotions_primary'' \<in> set required_fields"
    "u ''emotions_secondary'' \<in> set required_fields" "u ''keywords'' \<in> set required_fields"
    "u ''theme_primary'' \<in> set required_fields"
    by (simp_all add: required_fields_def)
  have none: "map_of eight_keys_items (PStr (u ''emotions_primary'')) = None"
    "map_of eight_keys_items (PStr (u ''emotions_secondary'')) = None"
    "map_of eight_keys_items (PStr (u ''keywords'')) = None"
    by (simp_all add: eight_keys_items_def)
  have some: "map_of eight_keys_items (PStr (u ''character_primary'')) = Some (PStr (u ''Asha''))"
    "map_of eight_keys_items (PStr (u ''events_secondary'')) = Some (PStr (u ''picnic''))"
    by (simp_all add: eight_keys_items_def)
  have l': "json_loads sample_lib (clean_json_str null_json) =
            Inr (PDict [(PStr (u ''keywords''), PNone)])"
    by (simp only: null_json_clean null_json_loads)
  have d': "list_all (\<lambda>v. is_list_or_dict v \<longrightarrow> \<not> isl (json_dumps sample_lib v))
              (map snd [(PStr (u ''keywords''), PNone)])"
    by (simp add: is_list_or_dict_def)
  note t' = missing_fields_defaulted_present_values_as_strings [OF l' d']
  have n1: "map_of [(PStr (u ''keywords''), PNone)] (PStr (u ''theme_primary'')) = None"
    and n2: "map_of [(PStr (u ''keywords''), PNone)] (PStr (u ''keywords'')) = Some PNone"
    and n3: "\<not> is_list_or_dict PNone" and n4: "\<not> is_str PNone"
    by (simp_all add: is_list_or_dict_def is_str_def)
  from t' req(4) n1
  have a: "map_of (parse_meta_tags_json sample_lib null_json) (PStr (u ''theme_primary'')) =
     Some (PStr (u ''Not specified''))"
    by blast
  from t' n2 n3 n4
  have b: "map_of (parse_meta_tags_json sample_lib null_json) (PStr (u ''keywords'')) =
     Some (PStr (py_repr sample_lib PNone))"
    by blast
  from t req none some l l' a b show ?thesis by blast
qed

lemma null_json_record:
  "parse_meta_tags_json sample_lib null_json =
     foldl ensure_field [(PStr (u ''keywords''), PStr (u ''None''))] required_fields"
proof -
  have l: "json_loads sample_lib (clean_json_str null_json) =
            Inr (PDict [(PStr (u ''keywords''), PNone)])"
    by (simp only: null_json_clean null_json_loads)
  have "stringify_items sample_lib [(PStr (u ''keywords''), PNone)] =
          Inr [(PStr (u ''keywords''), PStr (u ''None''))]"
    by (simp add: then_do_def stringify_value_def py_str_def sample_lib_def sample_repr_def)
  from parse_loaded_object [OF l this] show ?thesis .
qed

text \<open>
  The object \<open>{"keywords": null}\<close> has the key \<open>keywords\<close>, with the value \<open>null\<close>.
  In the record the key is mapped to the string \<open>None\<close>: the value present in the input
  is not preserved.
\<close>

theorem null_value_is_not_preserved:
  "json_loads sample_lib (clean_json_str null_json) = Inr (PDict [(PStr (u ''keywords''), PNone)]) \<and>
   map_of [(PStr (u ''keywords''), PNone)] (PStr (u ''keywords'')) = Some PNone \<and>
   map_of (parse_meta_tags_json sample_lib null_json) (PStr (u ''keywords'')) =
     Some (PStr (u ''None'')) \<and>
   PStr (u ''None'') \<noteq> PNone \<and> u ''None'' \<noteq> u ''null''"
  by (simp add: null_json_clean null_json_loads null_json_record map_of_ensure_fields)

subsection \<open>Input that cannot be parsed\<close>

text \<open>
  C4. When both \<open>json.loads\<close> and \<open>ast.literal_eval\<close> raise on the cleaned input, the
  parser returns (it has no way to raise) the record that maps each of the eleven keys to
  \<open>Error parsing\<close>.
\<close>

theorem unparseable_input_gives_error_record:
  assumes "isl (json_loads lib (clean_json_str s))"
    and "isl (literal_eval lib (clean_json_str s))"
  shows "parse_meta_tags_json lib s =
           map (\<lambda>field. (PStr field, PStr (u ''Error parsing''))) required_fields"
proof -
  from assms have "isl (load_meta_dict lib (clean_json_str s))"
    by (auto simp: load_meta_dict_def isl_def split: sum.splits pyexn.splits)
  then obtain e where "load_meta_dict lib (clean_json_str s) = Inl e"
    by (auto simp: isl_def)
  then show ?thesis
    by (simp add: parse_meta_tags_json_def parse_try_def then_do_def error_record_def)
qed

lemma hello_world_clean: "clean_json_str (u ''hello world'') = u ''hello world''"
proof -
  have "strip (u ''hello world'') = u ''hello world''"
    by (rule strip_id) (simp add: u_def py_isspace_def)
  moreover have "\<not> startswith (u ''hello world'') (u ''```json'')"
    by (simp add: startswith_def u_def)
  moreover have "\<not> endswith (u ''hello world'') (u ''```'')"
    by (simp add: endswith_def u_def)
  ultimately show ?thesis by (simp add: clean_json_str_def Let_def)
qed

theorem unparseable_input_gives_error_record_witness:
  "isl (json_loads sample_lib (clean_json_str (u ''hello world''))) \<and>
   isl (literal_eval sample_lib (clean_json_str (u ''hello world''))) \<and>
   parse_meta_tags_json sample_lib (u ''hello world'') =
     map (\<lambda>field. (PStr field, PStr (u ''Error parsing''))) required_fields"
proof -
  have a: "isl (json_loads sample_lib (clean_json_str (u ''hello world'')))"
    by (simp add: hello_world_clean sample_lib_def sample_loads_def extra_json_def
        eight_keys_json_def extra_record_json_def int_key_record_json_def defaults_json_def
        null_json_def u_append)
  have b: "isl (literal_eval sample_lib (clean_json_str (u ''hello world'')))"
    by (simp add: hello_world_clean sample_lib_def sample_literal_eval_def int_key_literal_def)
  from unparseable_input_gives_error_record [OF a b] a b show ?thesis by blast
qed

subsection \<open>Fenced input\<close>

lemma strip_Cons_space: "py_isspace a \<Longrightarrow> strip (a # s) = strip s"
  by (simp add: strip_def lstrip_def)

lemma rstrip_snoc_space: "py_isspace b \<Longrightarrow> rstrip (t @ [b]) = rstrip t"
  by (simp add: rstrip_def)

lemma strip_snoc_space:
  assumes "py_isspace b"
  shows "strip (s @ [b]) = strip s"
proof (cases "\<forall>x\<in>set s. py_isspace x")
  case True
  then have 1: "dropWhile py_isspace s = []"
    by simp
  from True assms have 2: "dropWhile py_isspace (s @ [b]) = []"
    by simp
  show ?thesis
    unfolding strip_def lstrip_def by (simp only: 1 2)
next
  case False
  then obtain x where "x \<in> set s" "\<not> py_isspace x" by blast
  then have "dropWhile py_isspace (s @ [b]) = dropWhile py_isspace s @ [b]"
    by (rule dropWhile_append1)
  then show ?thesis
    by (simp add: strip_def lstrip_def rstrip_snoc_space [OF assms])
qed

lemma strip_padded:
  "list_all py_isspace w1 \<Longrightarrow> list_all py_isspace w2 \<Longrightarrow> strip (w1 @ s @ w2) = strip s"
proof (induction w2 arbitrary: s rule: rev_induct)
  case Nil
  then show ?case by (induction w1) (simp_all add: strip_Cons_space)
next
  case (snoc b w2)
  from snoc.prems have "py_isspace b" "list_all py_isspace w2" by simp_all
  with snoc.IH [OF snoc.prems(1), of s] strip_snoc_space [of b "w1 @ s @ w2"]
  show ?case by simp
qed

lemma strip_ends:
  "strip s = [] \<or> (\<not> py_isspace (hd (strip s)) \<and> \<not> py_isspace (last (strip s)))"
proof (cases "strip s = []")
  case True
  then show ?thesis by simp
next
  case False
  define a where "a = dropWhile py_isspace s"
  define b where "b = dropWhile py_isspace (rev a)"
  have s: "strip s = rev b" by (simp add: strip_def lstrip_def rstrip_def a_def b_def)
  with False have b: "b \<noteq> []" by simp
  then have hb: "\<not> py_isspace (hd b)" unfolding b_def by (rule hd_dropWhile)
  from b have a: "a \<noteq> []" by (auto simp: b_def)
  then have ha: "\<not> py_isspace (hd a)" unfolding a_def by (rule hd_dropWhile)
  have "rev a = takeWhile py_isspace (rev a) @ b" by (simp add: b_def)
  then have "last (rev a) = last (takeWhile py_isspace (rev a) @ b)" by simp
  with b have "last b = last (rev a)" by simp
  with a have "last b = hd a" by (simp add: last_rev)
  with ha hb b s show ?thesis by (simp add: hd_rev last_rev)
qed

lemma strip_strip: "strip (strip s) = strip s"
  using strip_ends [of s] by (rule strip_id)

lemma clean_fenced: "clean_json_str (fenced s) = strip s"
proof -
  have f: "fenced s = u ''```json'' @ ([10] @ s @ [10] @ u ''```'')"
    by (simp add: fenced_def)
  have "strip (fenced s) = fenced s"
    by (rule strip_id) (simp add: fenced_def u_def py_isspace_def)
  moreover have "startswith (fenced s) (u ''```json'')"
    by (simp add: startswith_def f)
  moreover have "drop 7 (fenced s) = ([10] @ s @ [10]) @ u ''```''"
    by (simp add: f)
  moreover have "endswith (([10] @ s @ [10]) @ u ''```'') (u ''```'')"
    by (simp add: endswith_def)
  moreover have "take (length (([10] @ s @ [10]) @ u ''```'') - 3) (([10] @ s @ [10]) @ u ''```'') =
                 [10] @ s @ [10]"
    by simp
  moreover have "strip ([10] @ s @ [10]) = strip s"
    by (rule strip_padded) (simp_all add: py_isspace_def)
  ultimately show ?thesis
    by (simp only: clean_json_str_def Let_def if_True)
qed

lemma clean_unfenced:
  assumes "\<not> startswith (strip s) (u ''```json'')" "\<not> endswith (strip s) (u ''```'')"
  shows "clean_json_str s = strip s"
  using assms by (simp add: clean_json_str_def Let_def strip_strip)

lemma parse_depends_on_cleaned:
  "clean_json_str s = clean_json_str s' \<Longrightarrow>
     parse_meta_tags_json lib s = parse_meta_tags_json lib s'"
  by (simp add: parse_meta_tags_json_def parse_try_def)

text \<open>
  C6, as the code has it. An input that does not itself begin with \<open>```json\<close> or end
  with \<open>```\<close> (after trimming) gives the same record with a fence around it as without:
  the cleaning trims, removes one leading and one trailing fence, and trims again.
\<close>

theorem fenced_input_parses_like_bare_input:
  assumes "\<not> startswith (strip s) (u ''```json'')"
    and "\<not> endswith (strip s) (u ''```'')"
  shows "parse_meta_tags_json lib (fenced s) = parse_meta_tags_json lib s"
  by (rule parse_depends_on_cleaned) (simp only: clean_fenced clean_unfenced [OF assms])

lemma extra_json_strip: "strip extra_json = extra_json"
  by (rule strip_id) (simp add: extra_json_def u_def py_isspace_def)

theorem fenced_input_parses_like_bare_input_witness:
  "\<not> startswith (strip extra_json) (u ''```json'') \<and>
   \<not> endswith (strip extra_json) (u ''```'') \<and>
   parse_meta_tags_json sample_lib (fenced extra_json) =
     (PStr (u ''extra''), PStr (u ''x'')) # defaults"
proof -
  have a: "\<not> startswith (strip extra_json) (u ''```json'')"
    by (simp add: extra_json_strip) (simp add: startswith_def extra_json_def u_def)
  have b: "\<not> endswith (strip extra_json) (u ''```'')"
    by (simp add: extra_json_strip) (simp add: endswith_def extra_json_def u_def)
  from fenced_input_parses_like_bare_input [OF a b, of sample_lib] a b show ?thesis
    by (simp add: extra_json_record)
qed

lemma fence_only_clean: \<open>clean_json_str (u ''```json{}'') = u ''{}''\<close>
proof -
  have \<open>strip (u ''```json{}'') = u ''```json{}''\<close>
    by (rule strip_id) (simp add: u_def py_isspace_def)
  moreover have \<open>startswith (u ''```json{}'') (u ''```json'')\<close>
    by (simp add: startswith_def u_def)
  moreover have \<open>drop 7 (u ''```json{}'') = u ''{}''\<close>
    by (simp add: u_def)
  moreover have \<open>\<not> endswith (u ''{}'') (u ''```'')\<close>
    by (simp add: endswith_def)
  moreover have \<open>strip (u ''{}'') = u ''{}''\<close>
    by (rule strip_id) (simp add: u_def py_isspace_def)
  ultimately show ?thesis
    by (simp only: clean_json_str_def Let_def if_True if_False)
qed

lemma fence_only_strip: \<open>strip (u ''```json{}'') = u ''```json{}''\<close>
  by (rule strip_id) (simp add: u_def py_isspace_def)

lemma ensure_defaults_empty: "foldl ensure_field [] required_fields = defaults"
  by (simp add: required_fields_def ensure_field_def defaults_def)

lemma fence_only_record: \<open>parse_meta_tags_json sample_lib (u ''```json{}'') = defaults\<close>
  by (simp add: parse_meta_tags_json_def parse_try_def fence_only_clean load_meta_dict_def
      sample_lib_def sample_loads_def then_do_def ensure_defaults_empty)

lemma fence_only_fenced_record:
  \<open>parse_meta_tags_json sample_lib (fenced (u ''```json{}'')) = error_record\<close>
proof -
  have \<open>load_meta_dict sample_lib (u ''```json{}'') = Inl SyntaxError\<close>
    by (simp add: load_meta_dict_def sample_lib_def sample_loads_def sample_literal_eval_def
        extra_json_def eight_keys_json_def extra_record_json_def int_key_record_json_def
        int_key_literal_def defaults_json_def null_json_def u_append)
  then show ?thesis
    by (simp add: parse_meta_tags_json_def parse_try_def clean_fenced fence_only_strip then_do_def)
qed

text \<open>
  The input \<open>```json{}\<close>, a fence that is opened and not closed: as it is, the fence
  is removed and the empty object gives eleven defaults; with a fence around it only the
  outer fence is removed and what is left cannot be parsed.
\<close>

theorem fence_inside_fence_parses_differently:
  \<open>parse_meta_tags_json sample_lib (u ''```json{}'') = defaults \<and>
   parse_meta_tags_json sample_lib (fenced (u ''```json{}'')) = error_record \<and>
   map_of defaults (PStr (u ''keywords'')) = Some (PStr (u ''Not specified'')) \<and>
   map_of error_record (PStr (u ''keywords'')) = Some (PStr (u ''Error parsing'')) \<and>
   \<not> dict_eq (parse_meta_tags_json sample_lib (fenced (u ''```json{}'')))
              (parse_meta_tags_json sample_lib (u ''```json{}''))\<close>
proof -
  have d: "map_of defaults (PStr (u ''keywords'')) = Some (PStr (u ''Not specified''))"
    by (simp add: defaults_def required_fields_def)
  have e: "map_of error_record (PStr (u ''keywords'')) = Some (PStr (u ''Error parsing''))"
    by (simp add: error_record_def required_fields_def)
  have "map_of error_record \<noteq> map_of defaults"
  proof
    assume "map_of error_record = map_of defaults"
    then have "map_of error_record (PStr (u ''keywords'')) = map_of defaults (PStr (u ''keywords''))"
      by simp
    with d e show False by simp
  qed
  with d e show ?thesis
    by (simp add: fence_only_record fence_only_fenced_record dict_eq_def)
qed

subsection \<open>Parsing the serialised record again\<close>

lemma record_shape:
  "PStr ` set required_fields \<subseteq> keys (parse_meta_tags_json lib s) \<and>
   list_all is_str (map snd (parse_meta_tags_json lib s))"
proof (cases "parse_try lib s")
  case (Inl e)
  then show ?thesis
    by (simp add: parse_meta_tags_json_def keys_error_record values_error_record)
next
  case (Inr d)
  from parse_try_Inr [OF this] obtain items items' where
    st: "stringify_items lib items = Inr items'" and
    d: "d = foldl ensure_field items' required_fields"
    by blast
  from stringify_items_shape [OF st] have "list_all is_str (map snd items')"
    by simp
  with Inr d show ?thesis
    by (simp add: parse_meta_tags_json_def keys_ensure_fields values_ensure_fields)
qed

lemma ensure_fields_present: "PStr ` set fs \<subseteq> keys d \<Longrightarrow> foldl ensure_field d fs = d"
proof (induction fs)
  case Nil
  show ?case by simp
next
  case (Cons f fs)
  then have "ensure_field d f = d"
    by (simp add: ensure_field_def keys_def)
  with Cons show ?case by simp
qed

subsection \<open>Writing and reading an object of strings\<close>

lemma hexval_hexdigit: "n < 16 \<Longrightarrow> hexval (hexdigit n) = Some n"
  by (simp add: hexval_def hexdigit_def)

lemma hex4_control: "c < 32 \<Longrightarrow> hex4 [48, 48, hexdigit (c div 16), hexdigit (c mod 16)] = Some c"
proof -
  assume c: "c < 32"
  then have "c div 16 < 16" by simp
  then have a: "hexval (hexdigit (c div 16)) = Some (c div 16)" by (rule hexval_hexdigit)
  have b: "hexval (hexdigit (c mod 16)) = Some (c mod 16)" by (rule hexval_hexdigit) simp
  have z: "hexval 48 = Some 0" by (simp add: hexval_def)
  show ?thesis by (simp add: a b z)
qed

lemma scanstring_escape_char:
  assumes "scanstring X = Some (s, rest)" and "X \<noteq> []"
  shows "scanstring (escape_char c @ X) = Some (c # s, rest)"
proof -
  consider "c = 34" | "c = 92" | "c = 10" | "c = 13" | "c = 9" | "c = 12" | "c = 8"
    | "c < 32" "c \<notin> {10, 13, 9, 12, 8}" | "32 \<le> c" "c \<noteq> 34" "c \<noteq> 92"
    by force
  then show ?thesis
  proof cases
    case 8
    then have e: "escape_char c = [92, 117, 48, 48, hexdigit (c div 16), hexdigit (c mod 16)]"
      by (auto simp: escape_char_def)
    from 8 have "\<not> is_high_surrogate c" by (simp add: is_high_surrogate_def)
    with assms 8 show ?thesis
      by (simp add: e hex4_control decoded_def del: hex4.simps)
  next
    case 9
    then have "escape_char c = [c]" by (simp add: escape_char_def)
    with assms 9 show ?thesis by (simp add: decoded_def)
  qed (use assms in \<open>simp_all add: escape_char_def unescape_def decoded_def\<close>)
qed

lemma scanstring_encoded:
  "scanstring (concat (map escape_char s) @ 34 # rest) = Some (s, rest)"
proof (induction s)
  case Nil
  show ?case by simp
next
  case (Cons c s)
  have "concat (map escape_char s) @ 34 # rest \<noteq> []" by simp
  from scanstring_escape_char [OF Cons this] show ?case by simp
qed

lemma skip_ws_no_space [simp]: "\<not> json_ws c \<Longrightarrow> skip_ws (c # t) = c # t"
  by (simp add: skip_ws_def)

lemma skip_ws_space [simp]: "skip_ws (32 # t) = skip_ws t"
  by (simp add: skip_ws_def json_ws_def)

lemma json_ws_marks [simp]: "\<not> json_ws 34" "\<not> json_ws 58" "\<not> json_ws 44" "\<not> json_ws 125"
  "\<not> json_ws 123"
  by (simp_all add: json_ws_def)

lemma read_members_item:
  "read_members acc (write_item kv @ d # t6) =
     (if d = 125 then Some (set_item acc (fst kv) (snd kv), t6)
      else if d = 44 then read_members (set_item acc (fst kv) (snd kv)) (skip_ws t6)
      else if json_ws d then read_members acc (write_item kv @ d # t6)
      else None)"
proof (cases "json_ws d")
  case True
  then show ?thesis by (auto simp: json_ws_def)
next
  case False
  have w: "write_item kv @ d # t6 =
           34 # concat (map escape_char (fst kv)) @ 34 #
             (58 # 32 # 34 # concat (map escape_char (snd kv)) @ 34 # d # t6)"
    by (simp add: write_item_def encode_basestring_def)
  show ?thesis
    by (subst read_members.simps) (simp add: w scanstring_encoded False)
qed

lemma write_items_starts: "d \<noteq> [] \<Longrightarrow> \<exists>t. write_items d = 34 # t"
  by (induction d rule: write_items.induct) (simp_all add: write_item_def encode_basestring_def)

lemma read_members_written:
  "d \<noteq> [] \<Longrightarrow>
     read_members acc (write_items d @ 125 # rest) =
       Some (foldl (\<lambda>a kv. set_item a (fst kv) (snd kv)) acc d, rest)"
proof (induction d arbitrary: acc rule: write_items.induct)
  case 1
  then show ?case by simp
next
  case (2 kv)
  show ?case by (simp add: read_members_item)
next
  case (3 kv kv' rest')
  from write_items_starts [of "kv' # rest'"] obtain t where t: "write_items (kv' # rest') = 34 # t"
    by auto
  have "read_members acc (write_items (kv # kv' # rest') @ 125 # rest) =
        read_members (set_item acc (fst kv) (snd kv)) (skip_ws (32 # write_items (kv' # rest') @ 125 # rest))"
    by (simp add: read_members_item)
  also have "skip_ws (32 # write_items (kv' # rest') @ 125 # rest) =
             write_items (kv' # rest') @ 125 # rest"
    by (simp add: t)
  finally show ?case using "3.IH" [of "set_item acc (fst kv) (snd kv)"] by simp
qed

lemma set_item_new: "k \<notin> set (map fst acc) \<Longrightarrow> set_item acc k v = acc @ [(k, v)]"
  by (induction acc) auto

lemma set_items_distinct:
  "distinct (map fst (acc @ d)) \<Longrightarrow>
     foldl (\<lambda>a kv. set_item a (fst kv) (snd kv)) acc d = acc @ d"
proof (induction d arbitrary: acc)
  case Nil
  show ?case by simp
next
  case (Cons kv d)
  from Cons.prems have "fst kv \<notin> set (map fst acc)" by auto
  then have "set_item acc (fst kv) (snd kv) = acc @ [kv]"
    by (simp add: set_item_new)
  moreover from Cons.prems have "distinct (map fst ((acc @ [kv]) @ d))" by simp
  ultimately show ?case using Cons.IH [of "acc @ [kv]"] by simp
qed

text \<open>What the writer writes, the reader reads back.\<close>

lemma read_object_written:
  assumes "distinct (map fst d)"
  shows "read_object (write_object d) = Some d"
proof (cases "d = []")
  case True
  then show ?thesis by (simp add: read_object_def write_object_def skip_ws_def)
next
  case False
  from write_items_starts [OF False] obtain t where t: "write_items d = 34 # t"
    by auto
  have "read_members [] (write_items d @ [125]) = Some (d, [])"
    using read_members_written [OF False, of "[]" "[]"] set_items_distinct [of "[]" d] assms
    by simp
  then have "read_members [] (34 # t @ [125]) = Some (d, [])"
    by (simp add: t)
  with False show ?thesis
    by (simp add: read_object_def write_object_def t skip_ws_def)
qed

lemma str_items_strs_of:
  "list_all is_str (map fst r) \<Longrightarrow> list_all is_str (map snd r) \<Longrightarrow> str_items (strs_of r) = r"
proof (induction r)
  case Nil
  show ?case by (simp add: str_items_def strs_of_def)
next
  case (Cons kv r)
  obtain k v where kv: "kv = (k, v)" by (cases kv)
  with Cons.prems obtain x y where "k = PStr x" "v = PStr y"
    by (cases k; cases v) (simp_all add: is_str_def)
  with Cons kv show ?case by (simp add: str_items_def strs_of_def str_of_def)
qed

lemma strs_of_str_items [simp]: "strs_of (str_items d) = d"
  by (induction d) (simp_all add: str_items_def strs_of_def str_of_def)

lemma distinct_strs_of:
  "list_all is_str (map fst r) \<Longrightarrow> distinct (map fst r) \<Longrightarrow> distinct (map fst (strs_of r))"
proof (induction r)
  case Nil
  show ?case by (simp add: strs_of_def)
next
  case (Cons kv r)
  from Cons have IH: "distinct (map fst (strs_of r))" by simp
  have "str_of (fst kv) \<notin> set (map fst (strs_of r))"
  proof
    assume "str_of (fst kv) \<in> set (map fst (strs_of r))"
    then obtain kv' where kv': "kv' \<in> set r" "str_of (fst kv') = str_of (fst kv)"
      by (auto simp: strs_of_def)
    from Cons.prems(1) kv'(1) have "is_str (fst kv)" "is_str (fst kv')"
      by (auto simp: list_all_iff)
    then obtain x y where "fst kv = PStr x" "fst kv' = PStr y"
      by (cases "fst kv"; cases "fst kv'") (simp_all add: is_str_def)
    with kv'(2) have "fst kv' = fst kv" by (simp add: str_of_def)
    moreover from kv'(1) have "fst kv' \<in> set (map fst r)" by simp
    ultimately show False using Cons.prems(2) by simp
  qed
  with IH show ?case by (simp add: strs_of_def)
qed

lemma write_object_ends: "write_object d \<noteq> []" "hd (write_object d) = 123" "last (write_object d) = 125"
  by (simp_all add: write_object_def)


lemma reparse_when_read_back:
  assumes "t \<noteq> []" and "hd t = 123" and "last t = 125"
    and "json_loads lib t = Inr (PDict (parse_meta_tags_json lib s))"
  shows "parse_meta_tags_json lib t = parse_meta_tags_json lib s"
proof -
  have c: "clean_json_str t = t"
    using assms(1-3) by (rule clean_braces)
  from record_shape [of lib s]
  have k: "PStr ` set required_fields \<subseteq> keys (parse_meta_tags_json lib s)"
    and v: "list_all is_str (map snd (parse_meta_tags_json lib s))"
    by simp_all
  have st: "stringify_items lib (parse_meta_tags_json lib s) = Inr (parse_meta_tags_json lib s)"
    using v by (rule stringify_items_strings)
  have l: "json_loads lib (clean_json_str t) = Inr (PDict (parse_meta_tags_json lib s))"
    using assms(4) c by simp
  from parse_loaded_object [OF l st] ensure_fields_present [OF k] show ?thesis
    by simp
qed

text \<open>
  C5, as the code has it. Take a library that writes a dict of strings and reads an object
  of strings as CPython does, and a returned record whose keys are all strings (each once,
  as in every dict). Written with \<open>json.dumps(record, ensure_ascii=False)\<close> and parsed
  again, the record comes back identical: the text is read back as the record, and the
  second pass trims, restringifies and defaults nothing.
\<close>

theorem reparsing_the_serialised_record:
  assumes "\<forall>d. json_dumps lib (PDict (str_items d)) = Inr (write_object d)"
    and "\<forall>t d. read_object t = Some d \<longrightarrow> json_loads lib t = Inr (PDict (str_items d))"
    and "list_all is_str (map fst (parse_meta_tags_json lib s))"
    and "distinct (map fst (parse_meta_tags_json lib s))"
  shows "json_dumps lib (PDict (parse_meta_tags_json lib s)) =
           Inr (write_object (strs_of (parse_meta_tags_json lib s)))
       \<and> parse_meta_tags_json lib (write_object (strs_of (parse_meta_tags_json lib s))) =
           parse_meta_tags_json lib s"
proof -
  define r where "r = parse_meta_tags_json lib s"
  define d where "d = strs_of r"
  from record_shape [of lib s] have v: "list_all is_str (map snd r)"
    by (simp add: r_def)
  from assms(3) have k: "list_all is_str (map fst r)"
    by (simp add: r_def)
  have r: "str_items d = r"
    unfolding d_def using k v by (rule str_items_strs_of)
  have "distinct (map fst d)"
    unfolding d_def using k assms(4) [folded r_def] by (rule distinct_strs_of)
  then have "read_object (write_object d) = Some d"
    by (rule read_object_written)
  with assms(2) have l: "json_loads lib (write_object d) = Inr (PDict r)"
    by (simp add: r)
  from assms(1) have w: "json_dumps lib (PDict r) = Inr (write_object d)"
    by (simp flip: r)
  from reparse_when_read_back [OF write_object_ends, of lib d s] l
  have "parse_meta_tags_json lib (write_object d) = r"
    by (simp add: r_def)
  with w show ?thesis by (simp add: r_def d_def)
qed


lemma str_items_strings:
  "list_all is_str (map fst (str_items d))" "list_all is_str (map snd (str_items d))"
  by (simp_all add: str_items_def list_all_iff)

lemma json_lib_dumps: "json_dumps json_lib (PDict (str_items d)) = Inr (write_object d)"
  by (simp add: json_lib_def str_items_strings)

lemma json_lib_loads:
  "read_object t = Some d \<Longrightarrow> json_loads json_lib t = Inr (PDict (str_items d))"
  by (simp add: json_lib_def)

lemma extra_json_written: "write_object [(u ''extra'', u ''x'')] = extra_json"
  by (simp add: write_object_def write_item_def encode_basestring_def escape_char_def
      extra_json_def u_def)

lemma extra_record_json_written:
  "write_object ((u ''extra'', u ''x'') # map (\<lambda>field. (field, u ''Not specified'')) required_fields) =
     extra_record_json"
  by (simp add: write_object_def write_item_def encode_basestring_def escape_char_def
      extra_record_json_def defaults_json_def required_fields_def u_def)

lemma strs_of_extra_record:
  "strs_of ((PStr (u ''extra''), PStr (u ''x'')) # defaults) =
     (u ''extra'', u ''x'') # map (\<lambda>field. (field, u ''Not specified'')) required_fields"
  by (simp add: strs_of_def str_of_def defaults_def)

lemma json_lib_extra_record:
  "parse_meta_tags_json json_lib extra_json = (PStr (u ''extra''), PStr (u ''x'')) # defaults"
proof -
  have "read_object extra_json = Some [(u ''extra'', u ''x'')]"
    using read_object_written [of "[(u ''extra'', u ''x'')]"] by (simp add: extra_json_written)
  then have "json_loads json_lib (clean_json_str extra_json) =
             Inr (PDict [(PStr (u ''extra''), PStr (u ''x''))])"
    by (simp add: extra_json_clean json_lib_def str_items_def)
  moreover have "stringify_items json_lib [(PStr (u ''extra''), PStr (u ''x''))] =
                 Inr [(PStr (u ''extra''), PStr (u ''x''))]"
    by (rule stringify_items_strings) simp
  ultimately show ?thesis
    using parse_loaded_object by (simp add: ensure_defaults_extra)
qed

theorem reparsing_the_serialised_record_witness:
  "parse_meta_tags_json json_lib extra_json = (PStr (u ''extra''), PStr (u ''x'')) # defaults \<and>
   json_dumps json_lib (PDict (parse_meta_tags_json json_lib extra_json)) = Inr extra_record_json \<and>
   parse_meta_tags_json json_lib extra_record_json = (PStr (u ''extra''), PStr (u ''x'')) # defaults"
proof -
  have w: "\<forall>d. json_dumps json_lib (PDict (str_items d)) = Inr (write_object d)"
    by (simp add: json_lib_dumps)
  have r: "\<forall>t d. read_object t = Some d \<longrightarrow> json_loads json_lib t = Inr (PDict (str_items d))"
    by (simp add: json_lib_loads)
  have k: "list_all is_str (map fst (parse_meta_tags_json json_lib extra_json))"
    by (simp add: json_lib_extra_record defaults_def list_all_iff)
  have d: "distinct (map fst (parse_meta_tags_json json_lib extra_json))"
    by (simp add: json_lib_extra_record defaults_def required_fields_def)
  have t: "write_object (strs_of ((PStr (u ''extra''), PStr (u ''x'')) # defaults)) =
           extra_record_json"
    by (simp only: strs_of_extra_record extra_record_json_written)
  from reparsing_the_serialised_record [OF w r k d] show ?thesis
    by (simp add: json_lib_extra_record t)
qed

text \<open>The writer and the reader on a few texts, as CPython answers on them.\<close>

lemma encode_basestring_example:
  "encode_basestring [97, 34, 98, 92, 99, 10, 100, 1, 127, 233] =
     [34, 97, 92, 34, 98, 92, 92, 99, 92, 110, 100, 92, 117, 48, 48, 48, 49, 127, 233, 34]"
  by (simp add: encode_basestring_def escape_char_def hexdigit_def)

lemma read_object_escapes_example:
  \<open>read_object (u '' {"a" : "'' @ [92] @ u ''u00e9'' @ [92] @ u ''ud83d'' @ [92] @ u ''ude00" } '') =
     Some [(u ''a'', [233, 128512])]\<close>
  by (simp add: read_object_def read_members.simps skip_ws_def json_ws_def u_def decoded_def
      unescape_def hexval_def is_high_surrogate_def is_low_surrogate_def join_surrogates_def)

lemma read_object_duplicate_example:
  \<open>read_object (u ''{"a": "1", "b": "x", "a": "2"}'') = Some [(u ''a'', u ''2''), (u ''b'', u ''x'')]\<close>
  by (simp add: read_object_def read_members.simps skip_ws_def json_ws_def u_def decoded_def)

lemma read_object_refusals_example:
  \<open>read_object (u ''{"a": "b",}'') = None\<close>
  \<open>read_object (u ''{"a": "b"} x'') = None\<close>
  \<open>read_object (u ''hello world'') = None\<close>
  by (simp_all add: read_object_def read_members.simps skip_ws_def json_ws_def u_def decoded_def)

lemma int_key_record_json_ends: "int_key_record_json \<noteq> []" "hd int_key_record_json = 123"
  "last int_key_record_json = 125"
  by (simp_all add: int_key_record_json_def u_def)

lemma int_key_literal_clean: "clean_json_str int_key_literal = int_key_literal"
  by (rule clean_braces) (simp_all add: int_key_literal_def u_def)

lemma int_key_literal_load:
  "load_meta_dict sample_lib int_key_literal = Inr (PDict [(PInt 1, PStr (u ''a''))])"
  by (simp add: load_meta_dict_def sample_lib_def sample_loads_def sample_literal_eval_def
      int_key_literal_def extra_json_def eight_keys_json_def extra_record_json_def
      int_key_record_json_def defaults_json_def null_json_def u_append)

lemma ensure_defaults_int_key:
  "foldl ensure_field [(PInt 1, PStr (u ''a''))] required_fields = (PInt 1, PStr (u ''a'')) # defaults"
  by (simp add: required_fields_def ensure_field_def defaults_def)

lemma int_key_literal_record:
  "parse_meta_tags_json sample_lib int_key_literal = (PInt 1, PStr (u ''a'')) # defaults"
  by (simp add: parse_meta_tags_json_def parse_try_def int_key_literal_clean int_key_literal_load
      then_do_def stringify_value_str ensure_defaults_int_key)

lemma int_key_record_dumps:
  "json_dumps sample_lib (PDict ((PInt 1, PStr (u ''a'')) # defaults)) = Inr int_key_record_json"
  by (simp add: sample_lib_def sample_dumps_def)

lemma int_key_record_json_clean: "clean_json_str int_key_record_json = int_key_record_json"
  by (rule clean_braces) (rule int_key_record_json_ends)+

lemma int_key_record_loads:
  "json_loads sample_lib int_key_record_json =
     Inr (PDict ((PStr (u ''1''), PStr (u ''a'')) # defaults))"
  by (simp add: sample_lib_def sample_loads_def int_key_record_json_def extra_record_json_def
      extra_json_def eight_keys_json_def defaults_json_def u_append)

lemma defaults_strings: "list_all is_str (map snd defaults)"
  by (simp add: defaults_def list_all_iff)

lemma defaults_keys: "keys defaults = PStr ` set required_fields"
  by (auto simp: defaults_def keys_def)

lemma int_key_record_json_record:
  "parse_meta_tags_json sample_lib int_key_record_json = (PStr (u ''1''), PStr (u ''a'')) # defaults"
proof -
  have l: "json_loads sample_lib (clean_json_str int_key_record_json) =
        Inr (PDict ((PStr (u ''1''), PStr (u ''a'')) # defaults))"
    by (simp only: int_key_record_json_clean int_key_record_loads)
  have st: "stringify_items sample_lib ((PStr (u ''1''), PStr (u ''a'')) # defaults) =
        Inr ((PStr (u ''1''), PStr (u ''a'')) # defaults)"
    by (rule stringify_items_strings) (simp add: defaults_strings)
  have "PStr ` set required_fields \<subseteq> keys ((PStr (u ''1''), PStr (u ''a'')) # defaults)"
    using defaults_keys by (auto simp: keys_def)
  from parse_loaded_object [OF l st] ensure_fields_present [OF this] show ?thesis
    by simp
qed

lemma defaults_no_int_key: "map_of defaults (PInt 1) = None"
  by (simp add: map_of_eq_None_iff defaults_def image_iff)

text \<open>
  The Python literal \<open>{1: 'a'}\<close> is read by \<open>ast.literal_eval\<close>; its record has the
  integer key \<open>1\<close>. \<open>json.dumps\<close> writes that key as the string \<open>"1"\<close>, and the record
  parsed from the JSON text has the key \<open>"1"\<close> and no key \<open>1\<close>.
\<close>

theorem integer_key_does_not_come_back:
  "json_dumps sample_lib (PDict (parse_meta_tags_json sample_lib int_key_literal)) =
     Inr int_key_record_json \<and>
   map_of (parse_meta_tags_json sample_lib int_key_literal) (PInt 1) = Some (PStr (u ''a'')) \<and>
   map_of (parse_meta_tags_json sample_lib int_key_record_json) (PInt 1) = None \<and>
   \<not> dict_eq (parse_meta_tags_json sample_lib int_key_record_json)
              (parse_meta_tags_json sample_lib int_key_literal)"
proof -
  have a: "map_of (parse_meta_tags_json sample_lib int_key_literal) (PInt 1) = Some (PStr (u ''a''))"
    by (simp add: int_key_literal_record)
  have b: "map_of (parse_meta_tags_json sample_lib int_key_record_json) (PInt 1) = None"
    by (simp add: int_key_record_json_record defaults_no_int_key)
  have "map_of (parse_meta_tags_json sample_lib int_key_record_json) \<noteq>
        map_of (parse_meta_tags_json sample_lib int_key_literal)"
  proof
    assume "map_of (parse_meta_tags_json sample_lib int_key_record_json) =
            map_of (parse_meta_tags_json sample_lib int_key_literal)"
    then have "map_of (parse_meta_tags_json sample_lib int_key_record_json) (PInt 1) =
               map_of (parse_meta_tags_json sample_lib int_key_literal) (PInt 1)"
      by simp
    with a b show False by simp
  qed
  moreover have "json_dumps sample_lib (PDict (parse_meta_tags_json sample_lib int_key_literal)) =
     Inr int_key_record_json"
    by (simp only: int_key_literal_record int_key_record_dumps)
  ultimately show ?thesis using a b by (simp add: dict_eq_def)
qed

end
